theory Spec2Isabelle
  imports Complex_Main "HOL-Library.AList" "HOL-Library.Word"
begin

unbundle bit_operations_syntax

chapter \<open>Models of the KenyaShip backend services\<close>

text \<open>
  Each service module of the backend keeps its state in module-level JavaScript
  \<^verbatim>\<open>Map\<close>s. A model of a module is a record of those maps and one HOL function per exported
  operation, taking the state and returning the result together with the new state.
  A \<^verbatim>\<open>Map\<close> that is only read by key is a HOL map; a \<^verbatim>\<open>Map\<close> that the code iterates is an
  association list in insertion order, written with \<^const>\<open>AList.update\<close> (an existing key
  keeps its position, a new key goes last, as \<^verbatim>\<open>Map.prototype.set\<close> does). Objects are
  shared by reference in the source; the models refer to a stored object by its key and
  write every mutation back to the store. Fresh identifiers (\<^verbatim>\<open>uuidv4()\<close>), random bytes and
  the clock (\<^verbatim>\<open>Date.now()\<close>, milliseconds) are arguments of the operations. Logging and
  audit calls have no effect on the state modelled here and are left out.
\<close>

type_synonym UUID = string

section \<open>Access control (privacy-access-control/access-control.ts, auth.middleware.ts)\<close>

datatype UserRole = Customer | Driver | Dispatcher | Security_officer | Admin | System

type_synonym Permission = string

definition ROLE_PERMISSIONS :: "(UserRole \<times> Permission list) list" where
  "ROLE_PERMISSIONS =
    [(Customer, [''read:own_delivery'', ''write:own_delivery_consent'', ''read:own_notification'']),
     (Driver, [''read:assigned_delivery'', ''write:delivery_status'', ''read:emergency'',
               ''write:emergency'']),
     (Dispatcher, [''read:all_delivery'', ''write:delivery_assignment'', ''read:emergency'',
                   ''read:audit'']),
     (Security_officer, [''read:security_alert'', ''write:security_alert'', ''read:emergency'',
                         ''read:audit'', ''read:location_history'']),
     (Admin, [''*'']),
     (System, [''*''])]"

definition getUserPermissions :: "UserRole \<Rightarrow> Permission list" where
  "getUserPermissions userRole =
    (case map_of ROLE_PERMISSIONS userRole of Some perms \<Rightarrow> perms | None \<Rightarrow> [])"

definition hasPermission :: "UserRole \<Rightarrow> Permission \<Rightarrow> bool" where
  "hasPermission userRole permission =
    (let perms = getUserPermissions userRole
     in ''*'' \<in> set perms \<or> permission \<in> set perms)"

record JWTPayload =
  jwt_userId :: UUID
  jwt_role :: UserRole
  jwt_exp :: nat

record ReqUser =
  user_id :: UUID
  user_role :: UserRole
  user_permissions :: "Permission list"

record Request =
  req_user :: "ReqUser option"

text \<open>
  What a middleware does with a request: it calls \<^verbatim>\<open>next()\<close>, or it answers with an HTTP
  status and an error code.
\<close>

datatype MiddlewareResult = Next | Respond nat string

text \<open>
  \<^verbatim>\<open>jwt.verify(token, secret)\<close> belongs to the jsonwebtoken library: it is a parameter that
  returns the decoded payload, or \<open>None\<close> where the library throws. The request id that
  \<open>authMiddleware\<close> copies into the response header is left out.
\<close>

definition authMiddleware ::
  "(string \<Rightarrow> string \<Rightarrow> JWTPayload option) \<Rightarrow> string \<Rightarrow> string option \<Rightarrow> Request
    \<Rightarrow> Request \<times> MiddlewareResult" where
  "authMiddleware jwt_verify jwtSecret authHeader req =
    (case authHeader of
       None \<Rightarrow> (req, Next)
     | Some h \<Rightarrow>
         if h = [] \<or> take 7 h \<noteq> ''Bearer '' then (req, Next)
         else (case jwt_verify (drop 7 h) jwtSecret of
                 Some decoded \<Rightarrow>
                   (req\<lparr>req_user := Some \<lparr>user_id = jwt_userId decoded,
                                           user_role = jwt_role decoded,
                                           user_permissions = getUserPermissions (jwt_role decoded)\<rparr>\<rparr>,
                    Next)
               | None \<Rightarrow> (req, Respond 401 ''INVALID_TOKEN'')))"

definition requireAuth :: "Request \<Rightarrow> MiddlewareResult" where
  "requireAuth req =
    (case req_user req of None \<Rightarrow> Respond 401 ''UNAUTHORIZED'' | Some u \<Rightarrow> Next)"

definition requireRole :: "UserRole list \<Rightarrow> Request \<Rightarrow> MiddlewareResult" where
  "requireRole roles req =
    (case req_user req of
       None \<Rightarrow> Respond 403 ''FORBIDDEN''
     | Some u \<Rightarrow> if user_role u \<in> set roles then Next else Respond 403 ''FORBIDDEN'')"

definition requirePermission :: "Permission \<Rightarrow> Request \<Rightarrow> MiddlewareResult" where
  "requirePermission permission req =
    (case req_user req of
       None \<Rightarrow> Respond 403 ''FORBIDDEN''
     | Some u \<Rightarrow>
         if permission \<in> set (user_permissions u) then Next
         else Respond 403 ''FORBIDDEN'')"

section \<open>Emergency orchestrator (emergency-response/orchestrator.ts)\<close>

record RawCoordinates =
  latitude :: real
  longitude :: real

datatype EmergencyType = Panic_button | Accident_detected

datatype EmergencyStatus = Triggered | Responding | Acknowledged | Resolved

record EmergencyRecord =
  e_id :: UUID
  e_driverId :: UUID
  e_deliveryId :: "UUID option"
  e_emergencyType :: EmergencyType
  e_location :: RawCoordinates
  e_triggeredAt :: nat
  e_status :: EmergencyStatus
  e_notificationsent :: "string list"

record AccelReading =
  acc_x :: real
  acc_y :: real
  acc_z :: real
  acc_timestamp :: nat

record EmergencyContact =
  contact_name :: string
  contact_phone :: string
  contact_relationship :: string

record emergency_state =
  emergencyContacts :: "UUID \<rightharpoonup> EmergencyContact list"
  emergencyStore :: "(UUID \<times> EmergencyRecord) list"
  activeEmergencies :: "UUID \<rightharpoonup> UUID"
  accelerometerHistory :: "UUID \<rightharpoonup> AccelReading list"

definition emergency_init :: emergency_state where
  "emergency_init =
    \<lparr>emergencyContacts = Map.empty, emergencyStore = [], activeEmergencies = Map.empty,
     accelerometerHistory = Map.empty\<rparr>"

definition impactGForce :: real where
  "impactGForce = 4"

text \<open>
  \<open>createEmergencyRecord\<close> stores the new record under the fresh id and makes it the
  driver's active emergency. The record it returns is the one in the store.
\<close>

definition createEmergencyRecord ::
  "UUID \<Rightarrow> nat \<Rightarrow> UUID \<Rightarrow> EmergencyType \<Rightarrow> RawCoordinates \<Rightarrow> UUID option \<Rightarrow> emergency_state
    \<Rightarrow> EmergencyRecord \<times> emergency_state" where
  "createEmergencyRecord newId now driverId emergencyType location deliveryId st =
    (let emergency =
           \<lparr>e_id = newId, e_driverId = driverId, e_deliveryId = deliveryId,
            e_emergencyType = emergencyType, e_location = location, e_triggeredAt = now,
            e_status = Triggered, e_notificationsent = []\<rparr>
     in (emergency,
         st\<lparr>emergencyStore := AList.update newId emergency (emergencyStore st),
            activeEmergencies := (activeEmergencies st)(driverId \<mapsto> newId)\<rparr>))"

text \<open>
  \<open>initiateEmergencyResponse\<close> assigns \<^verbatim>\<open>emergency.status = 'responding'\<close> on the object it
  is given, which is the object held by the store: the stored record changes with it.
\<close>

definition initiateEmergencyResponse ::
  "EmergencyRecord \<Rightarrow> emergency_state \<Rightarrow> EmergencyRecord \<times> emergency_state" where
  "initiateEmergencyResponse emergency st =
    (let emergency' = emergency\<lparr>e_status := Responding\<rparr>
     in (emergency',
         st\<lparr>emergencyStore := AList.update (e_id emergency) emergency' (emergencyStore st)\<rparr>))"

text \<open>
  The lookup at the head of \<open>triggerPanicButton\<close>: \<^verbatim>\<open>if (existingId)\<close> is false for a missing
  entry and for the empty string, and the existing record is returned only when its status
  is \<^verbatim>\<open>'triggered'\<close>.
\<close>

definition existingTriggered :: "UUID \<Rightarrow> emergency_state \<Rightarrow> EmergencyRecord option" where
  "existingTriggered driverId st =
    (case activeEmergencies st driverId of
       None \<Rightarrow> None
     | Some existingId \<Rightarrow>
         if existingId = [] then None
         else (case map_of (emergencyStore st) existingId of
                 None \<Rightarrow> None
               | Some existing \<Rightarrow> if e_status existing = Triggered then Some existing else None))"

definition triggerPanicButton ::
  "UUID \<Rightarrow> nat \<Rightarrow> UUID \<Rightarrow> RawCoordinates \<Rightarrow> UUID option \<Rightarrow> emergency_state
    \<Rightarrow> EmergencyRecord \<times> emergency_state" where
  "triggerPanicButton newId now driverId location deliveryId st =
    (case existingTriggered driverId st of
       Some existing \<Rightarrow> (existing, st)
     | None \<Rightarrow>
         (let (emergency, st1) =
                createEmergencyRecord newId now driverId Panic_button location deliveryId st
          in initiateEmergencyResponse emergency st1))"

text \<open>
  The g-force \<^verbatim>\<open>Math.sqrt(x ** 2 + y ** 2 + z ** 2)\<close> is computed over the reals; the floating
  point rounding of the source is not modelled.
\<close>

definition processAccelerometerData ::
  "UUID \<Rightarrow> nat \<Rightarrow> UUID \<Rightarrow> AccelReading \<Rightarrow> RawCoordinates \<Rightarrow> UUID option \<Rightarrow> emergency_state
    \<Rightarrow> EmergencyRecord option \<times> emergency_state" where
  "processAccelerometerData newId now driverId reading location deliveryId st =
    (let history = (case accelerometerHistory st driverId of None \<Rightarrow> [] | Some h \<Rightarrow> h)
                     @ [reading];
         history' = (if length history > 30 then tl history else history);
         st1 = st\<lparr>accelerometerHistory := (accelerometerHistory st)(driverId \<mapsto> history')\<rparr>;
         gForce = sqrt ((acc_x reading)\<^sup>2 + (acc_y reading)\<^sup>2 + (acc_z reading)\<^sup>2)
     in if gForce \<ge> impactGForce \<and> activeEmergencies st1 driverId = None
        then (let (emergency, st2) =
                    createEmergencyRecord newId now driverId Accident_detected location
                      deliveryId st1;
                  (emergency', st3) = initiateEmergencyResponse emergency st2
              in (Some emergency', st3))
        else (None, st1))"

definition getEmergency :: "UUID \<Rightarrow> emergency_state \<Rightarrow> EmergencyRecord option" where
  "getEmergency emergencyId st = map_of (emergencyStore st) emergencyId"

definition getActiveEmergency :: "UUID \<Rightarrow> emergency_state \<Rightarrow> EmergencyRecord option" where
  "getActiveEmergency driverId st =
    (case activeEmergencies st driverId of
       None \<Rightarrow> None
     | Some i \<Rightarrow> if i = [] then None else map_of (emergencyStore st) i)"

definition acknowledgeEmergency :: "UUID \<Rightarrow> UUID \<Rightarrow> emergency_state \<Rightarrow> bool \<times> emergency_state" where
  "acknowledgeEmergency emergencyId acknowledgedBy st =
    (case map_of (emergencyStore st) emergencyId of
       None \<Rightarrow> (False, st)
     | Some emergency \<Rightarrow>
         (True, st\<lparr>emergencyStore :=
                     AList.update emergencyId (emergency\<lparr>e_status := Acknowledged\<rparr>)
                       (emergencyStore st)\<rparr>))"

definition resolveEmergency :: "UUID \<Rightarrow> UUID \<Rightarrow> emergency_state \<Rightarrow> bool \<times> emergency_state" where
  "resolveEmergency emergencyId resolvedBy st =
    (case map_of (emergencyStore st) emergencyId of
       None \<Rightarrow> (False, st)
     | Some emergency \<Rightarrow>
         (True, st\<lparr>emergencyStore :=
                     AList.update emergencyId (emergency\<lparr>e_status := Resolved\<rparr>)
                       (emergencyStore st),
                   activeEmergencies := (activeEmergencies st)(e_driverId emergency := None)\<rparr>))"

definition getAllActiveEmergencies :: "emergency_state \<Rightarrow> EmergencyRecord list" where
  "getAllActiveEmergencies st =
    filter (\<lambda>e. e_status e \<noteq> Resolved) (map snd (emergencyStore st))"

definition setEmergencyContacts :: "UUID \<Rightarrow> EmergencyContact list \<Rightarrow> emergency_state \<Rightarrow> emergency_state" where
  "setEmergencyContacts driverId contacts st =
    st\<lparr>emergencyContacts := (emergencyContacts st)(driverId \<mapsto> contacts)\<rparr>"

definition getEmergencyContacts :: "UUID \<Rightarrow> emergency_state \<Rightarrow> EmergencyContact list" where
  "getEmergencyContacts driverId st =
    (case emergencyContacts st driverId of None \<Rightarrow> [] | Some contacts \<Rightarrow> contacts)"

text \<open>The coordinates of scenario S4 of the specification.\<close>

definition nairobi :: RawCoordinates where
  "nairobi = \<lparr>latitude = - 13 / 10, longitude = 368 / 10\<rparr>"

section \<open>The platform: configuration and external libraries\<close>

text \<open>
  A JavaScript string is modelled by the list of its UTF-8 bytes, and so is a \<^verbatim>\<open>Buffer\<close>: both
  are \<^typ>\<open>string\<close>, whose characters are bytes. The record \<open>platform\<close> collects what the
  services take from outside the repository: the configuration values they read and the
  library functions they call (Node's \<^verbatim>\<open>crypto\<close>, otplib). AES-256-GCM is described by its two
  parts as NIST SP 800-38D defines the mode: the body is the plaintext XORed byte by byte
  with the counter-mode keystream of the key and the nonce, and the tag is a function of the
  key, the nonce and the body. \<open>calculateDistance\<close> (utils/geo-utils.ts) is the haversine
  formula in floating point, which is not modelled: it is a parameter too.
\<close>

record platform =
  cfg_encryptionKey :: string
  cfg_hmacSecret :: string
  cfg_otpTtlSeconds :: nat
  hmac_sha256 :: "string \<Rightarrow> string \<Rightarrow> string"
  sha256_digest :: "string \<Rightarrow> string"
  aes_ctr_keystream :: "string \<Rightarrow> string \<Rightarrow> nat \<Rightarrow> char"
  gcm_auth_tag :: "string \<Rightarrow> string \<Rightarrow> string \<Rightarrow> string"
  base64_decode :: "string \<Rightarrow> string"
  totp_generate :: "string \<Rightarrow> nat \<Rightarrow> string"
  totp_verify :: "string \<Rightarrow> string \<Rightarrow> nat \<Rightarrow> bool"
  calculateDistance :: "RawCoordinates \<Rightarrow> RawCoordinates \<Rightarrow> real"

text \<open>
  \<open>hmac_sha256 P key data\<close> is \<^verbatim>\<open>createHmac('sha256', key).update(data).digest()\<close>,
  \<open>totp_generate P secret now\<close> is \<^verbatim>\<open>totp.generate(secret)\<close> at time \<open>now\<close>, and
  \<open>totp_verify P token secret now\<close> is \<^verbatim>\<open>totp.verify({token, secret})\<close> at time \<open>now\<close>.
\<close>

section \<open>Encodings (Buffer.toString, String.prototype.split, toUpperCase)\<close>

definition b64_alphabet :: string where
  "b64_alphabet = ''ABCDEFGHIJKLMNOPQRSTUVWXYZabcdefghijklmnopqrstuvwxyz0123456789+/''"

definition b64_digit :: "nat \<Rightarrow> char" where
  "b64_digit n = b64_alphabet ! (n mod 64)"

text \<open>\<^verbatim>\<open>buf.toString('base64')\<close>: RFC 4648 with padding.\<close>

fun base64_encode :: "string \<Rightarrow> string" where
  "base64_encode [] = []"
| "base64_encode [a] =
    (let x = (of_char a :: nat)
     in [b64_digit (x div 4), b64_digit ((x mod 4) * 16), CHR ''='', CHR ''=''])"
| "base64_encode [a, b] =
    (let x = (of_char a :: nat); y = (of_char b :: nat)
     in [b64_digit (x div 4), b64_digit ((x mod 4) * 16 + y div 16),
         b64_digit ((y mod 16) * 4), CHR ''=''])"
| "base64_encode (a # b # c # rest) =
    (let x = (of_char a :: nat); y = (of_char b :: nat); z = (of_char c :: nat)
     in [b64_digit (x div 4), b64_digit ((x mod 4) * 16 + y div 16),
         b64_digit ((y mod 16) * 4 + z div 64), b64_digit (z mod 64)]
        @ base64_encode rest)"

definition hex_digit :: "nat \<Rightarrow> char" where
  "hex_digit n = ''0123456789abcdef'' ! (n mod 16)"

text \<open>\<^verbatim>\<open>digest('hex')\<close>: two lower-case digits for each byte.\<close>

definition hex_encode :: "string \<Rightarrow> string" where
  "hex_encode bs = concat (map (\<lambda>b. [hex_digit ((of_char b :: nat) div 16),
                                        hex_digit ((of_char b :: nat) mod 16)]) bs)"

text \<open>
  \<^verbatim>\<open>s.toUpperCase()\<close> on the ASCII letters; every other byte is left as it is (the source's
  Unicode case mapping beyond ASCII is not modelled).
\<close>

definition to_upper :: "char \<Rightarrow> char" where
  "to_upper c =
    (let n = (of_char c :: nat) in if 97 \<le> n \<and> n \<le> 122 then char_of (n - 32) else c)"

definition toUpperCase :: "string \<Rightarrow> string" where
  "toUpperCase s = map to_upper s"

text \<open>
  \<^verbatim>\<open>s.split(c)\<close> for a one-character separator: the pieces between the separators, empty
  pieces included; the empty string splits into one empty piece.
\<close>

fun split_on :: "char \<Rightarrow> string \<Rightarrow> string list" where
  "split_on c [] = [[]]"
| "split_on c (x # xs) =
    (if x = c then [] # split_on c xs
     else (case split_on c xs of
             [] \<Rightarrow> [[x]]
           | piece # pieces \<Rightarrow> (x # piece) # pieces))"

section \<open>Crypto primitives (crypto/encryption.ts, crypto/hashing.ts)\<close>

datatype crypto_error = Invalid_encryption_format | Auth_failed

definition xor_char :: "char \<Rightarrow> char \<Rightarrow> char" where
  "xor_char a b = char_of ((of_char a :: nat) XOR (of_char b :: nat))"

definition gcm_body :: "platform \<Rightarrow> string \<Rightarrow> string \<Rightarrow> string \<Rightarrow> string" where
  "gcm_body P key iv input =
    map (\<lambda>(i, c). xor_char c (aes_ctr_keystream P key iv i)) (enumerate 0 input)"

text \<open>
  \<open>encrypt\<close>: the 12 random bytes of the nonce are the argument \<open>iv\<close>. The result is
  \<^verbatim>\<open>`${iv.toString('base64')}:${authTag}:${encrypted}`\<close>.
\<close>

definition encrypt :: "platform \<Rightarrow> string \<Rightarrow> string \<Rightarrow> string \<Rightarrow> string" where
  "encrypt P iv text contextId =
    (let derivedKey = hmac_sha256 P (cfg_encryptionKey P) contextId;
         encrypted = base64_encode (gcm_body P derivedKey iv text);
         authTag = base64_encode (gcm_auth_tag P derivedKey iv (gcm_body P derivedKey iv text))
     in base64_encode iv @ '':'' @ authTag @ '':'' @ encrypted)"

text \<open>
  \<open>decrypt\<close>: \<^verbatim>\<open>throw new Error('Invalid encryption format')\<close> is
  \<open>Inl Invalid_encryption_format\<close>, and the exception of \<^verbatim>\<open>decipher.final\<close> on a tag that does
  not match is \<open>Inl Auth_failed\<close>. \<^verbatim>\<open>!ivBase64\<close> holds of the empty string. The tag is compared
  whole: the truncated tags that \<^verbatim>\<open>setAuthTag\<close> of Node accepts, and the exception that Node
  raises for an invalid IV, are not modelled.
\<close>

definition decrypt :: "platform \<Rightarrow> string \<Rightarrow> string \<Rightarrow> crypto_error + string" where
  "decrypt P encryptedText contextId =
    (case split_on CHR '':'' encryptedText of
       [ivBase64, authTagBase64, encryptedBase64] \<Rightarrow>
         if ivBase64 = [] \<or> authTagBase64 = [] \<or> encryptedBase64 = []
         then Inl Invalid_encryption_format
         else
           (let iv = base64_decode P ivBase64;
                authTag = base64_decode P authTagBase64;
                derivedKey = hmac_sha256 P (cfg_encryptionKey P) contextId;
                body = base64_decode P encryptedBase64
            in if gcm_auth_tag P derivedKey iv body = authTag
               then Inr (gcm_body P derivedKey iv body)
               else Inl Auth_failed)
     | _ \<Rightarrow> Inl Invalid_encryption_format)"

definition sha256 :: "platform \<Rightarrow> string \<Rightarrow> string" where
  "sha256 P s = hex_encode (sha256_digest P s)"

definition hmacSha256 :: "platform \<Rightarrow> string \<Rightarrow> string \<Rightarrow> string" where
  "hmacSha256 P s key = hex_encode (hmac_sha256 P key s)"

section \<open>Delivery verifier (delivery-verification/verifier.ts)\<close>

datatype VerificationMethod = Otp | Code | Photo | Signature | Geofence | Biometric

record OTPRecord =
  otp_id :: UUID
  otp_deliveryId :: UUID
  otp_recipientId :: UUID
  otp_otpEncrypted :: string
  otp_expiresAt :: nat
  otp_createdAt :: nat
  otp_attemptCount :: nat
  otp_isVerified :: bool
  otp_verifiedAt :: "nat option"

record PhotoMetadata =
  meta_width :: nat
  meta_height :: nat
  meta_mimeType :: string

record DeliveryPhoto =
  photo_id :: UUID
  photo_deliveryId :: UUID
  photo_photoEncrypted :: string
  photo_metadata :: PhotoMetadata
  photo_sizeBytes :: nat
  photo_capturedAt :: nat
  photo_zoneId :: "string option"

record DeliverySignature =
  sig_id :: UUID
  sig_deliveryId :: UUID
  sig_signatureEncrypted :: string
  sig_signatureHash :: string
  sig_capturedAt :: nat
  sig_signerName :: "string option"

record DeliveryVerification =
  v_id :: UUID
  v_deliveryId :: UUID
  v_methodsRequired :: "VerificationMethod list"
  v_methodsCompleted :: "VerificationMethod list"
  v_isComplete :: bool
  v_completedAt :: "nat option"

text \<open>
  \<open>otpStore\<close> is iterated by \<open>verifyOTP\<close>, so it is a list in insertion order; the other maps
  are only read and written by key.
\<close>

record verifier_state =
  otpStore :: "(UUID \<times> OTPRecord) list"
  photoStore :: "UUID \<rightharpoonup> DeliveryPhoto"
  signatureStore :: "UUID \<rightharpoonup> DeliverySignature"
  verificationStore :: "UUID \<rightharpoonup> DeliveryVerification"
  deliverySecrets :: "UUID \<rightharpoonup> string"

definition verifier_init :: verifier_state where
  "verifier_init =
    \<lparr>otpStore = [], photoStore = Map.empty, signatureStore = Map.empty,
     verificationStore = Map.empty, deliverySecrets = Map.empty\<rparr>"

record OTPResult =
  isValid :: bool
  reason :: "string option"
  remainingAttempts :: "int option"

text \<open>\<open>generateDeliverySecret\<close>: the random secret of otplib is the argument \<open>newSecret\<close>.\<close>

definition generateDeliverySecret :: "string \<Rightarrow> UUID \<Rightarrow> verifier_state \<Rightarrow> string \<times> verifier_state" where
  "generateDeliverySecret newSecret deliveryId st =
    (newSecret, st\<lparr>deliverySecrets := (deliverySecrets st)(deliveryId \<mapsto> newSecret)\<rparr>)"

text \<open>
  \<open>updateVerification\<close>: \<^verbatim>\<open>includes\<close>/\<^verbatim>\<open>push\<close> on the completed methods, then \<^verbatim>\<open>every\<close> over the
  required ones; the record is the object in \<open>verificationStore\<close>.
\<close>

definition updateVerification :: "UUID \<Rightarrow> VerificationMethod \<Rightarrow> nat \<Rightarrow> verifier_state \<Rightarrow> verifier_state" where
  "updateVerification deliveryId method now st =
    (case verificationStore st deliveryId of
       None \<Rightarrow> st
     | Some verification \<Rightarrow>
         (let completed = (if method \<in> set (v_methodsCompleted verification)
                           then v_methodsCompleted verification
                           else v_methodsCompleted verification @ [method]);
              v1 = verification\<lparr>v_methodsCompleted := completed\<rparr>;
              allComplete = list_all (\<lambda>m. m \<in> set completed) (v_methodsRequired v1);
              v2 = (if allComplete \<and> \<not> v_isComplete v1
                    then v1\<lparr>v_isComplete := True, v_completedAt := Some now\<rparr>
                    else v1)
          in st\<lparr>verificationStore := (verificationStore st)(deliveryId \<mapsto> v2)\<rparr>))"

text \<open>
  \<open>generateOTP\<close>: \<^verbatim>\<open>!secret\<close> holds of a missing entry and of the empty string. The arguments
  \<open>newSecret\<close>, \<open>newId\<close> and \<open>iv\<close> are the random values the call draws.
\<close>

definition generateOTP ::
  "platform \<Rightarrow> string \<Rightarrow> UUID \<Rightarrow> string \<Rightarrow> nat \<Rightarrow> UUID \<Rightarrow> UUID \<Rightarrow> verifier_state
    \<Rightarrow> (string \<times> nat) \<times> verifier_state" where
  "generateOTP P newSecret newId iv now deliveryId recipientId st =
    (let (secret, st1) =
           (case deliverySecrets st deliveryId of
              None \<Rightarrow> generateDeliverySecret newSecret deliveryId st
            | Some s \<Rightarrow> if s = [] then generateDeliverySecret newSecret deliveryId st
                        else (s, st));
         otp = totp_generate P secret now;
         expiresAt = now + cfg_otpTtlSeconds P * 1000;
         otpEncrypted = encrypt P iv otp deliveryId;
         record' = \<lparr>otp_id = newId, otp_deliveryId = deliveryId, otp_recipientId = recipientId,
                    otp_otpEncrypted = otpEncrypted, otp_expiresAt = expiresAt,
                    otp_createdAt = now, otp_attemptCount = 0, otp_isVerified = False,
                    otp_verifiedAt = None\<rparr>
     in ((otp, expiresAt), st1\<lparr>otpStore := AList.update newId record' (otpStore st1)\<rparr>))"

text \<open>
  The loop of \<open>verifyOTP\<close> stops at the first record of the delivery that is not verified,
  and the function then mutates that object: \<open>replace_first\<close> writes the mutated record at
  the position where the loop found it.
\<close>

definition pendingOTP :: "UUID \<Rightarrow> UUID \<times> OTPRecord \<Rightarrow> bool" where
  "pendingOTP deliveryId entry =
    (otp_deliveryId (snd entry) = deliveryId \<and> \<not> otp_isVerified (snd entry))"

fun replace_first :: "('a \<Rightarrow> bool) \<Rightarrow> 'a \<Rightarrow> 'a list \<Rightarrow> 'a list" where
  "replace_first p y [] = []"
| "replace_first p y (x # xs) = (if p x then y # xs else x # replace_first p y xs)"

definition verifyOTP ::
  "platform \<Rightarrow> nat \<Rightarrow> UUID \<Rightarrow> string \<Rightarrow> verifier_state \<Rightarrow> OTPResult \<times> verifier_state" where
  "verifyOTP P now deliveryId providedOTP st =
    (case deliverySecrets st deliveryId of
       None \<Rightarrow> (\<lparr>isValid = False, reason = Some ''no_otp_generated'', remainingAttempts = None\<rparr>, st)
     | Some secret \<Rightarrow>
         if secret = []
         then (\<lparr>isValid = False, reason = Some ''no_otp_generated'', remainingAttempts = None\<rparr>, st)
         else
           (case find (pendingOTP deliveryId) (otpStore st) of
              None \<Rightarrow>
                (\<lparr>isValid = False, reason = Some ''no_pending_otp'', remainingAttempts = None\<rparr>, st)
            | Some (key, otpRecord) \<Rightarrow>
                if otp_expiresAt otpRecord < now
                then (\<lparr>isValid = False, reason = Some ''otp_expired'',
                       remainingAttempts = None\<rparr>, st)
                else if otp_attemptCount otpRecord \<ge> 5
                then (\<lparr>isValid = False, reason = Some ''max_attempts_exceeded'',
                       remainingAttempts = Some 0\<rparr>, st)
                else
                  (let valid = totp_verify P providedOTP secret now;
                       counted = otpRecord\<lparr>otp_attemptCount := otp_attemptCount otpRecord + 1\<rparr>
                   in if valid
                      then
                        (let verified = counted\<lparr>otp_isVerified := True,
                                                otp_verifiedAt := Some now\<rparr>;
                             st1 = st\<lparr>otpStore := replace_first (pendingOTP deliveryId)
                                                     (key, verified) (otpStore st)\<rparr>
                         in (\<lparr>isValid = True, reason = None, remainingAttempts = None\<rparr>,
                             updateVerification deliveryId Otp now st1))
                      else
                        (\<lparr>isValid = False, reason = Some ''invalid_otp'',
                          remainingAttempts = Some (5 - int (otp_attemptCount counted))\<rparr>,
                         st\<lparr>otpStore := replace_first (pendingOTP deliveryId)
                                           (key, counted) (otpStore st)\<rparr>))))"

definition storeDeliveryPhoto ::
  "platform \<Rightarrow> UUID \<Rightarrow> string \<Rightarrow> nat \<Rightarrow> UUID \<Rightarrow> string \<Rightarrow> PhotoMetadata \<Rightarrow> RawCoordinates option
    \<Rightarrow> verifier_state \<Rightarrow> DeliveryPhoto \<times> verifier_state" where
  "storeDeliveryPhoto P newId iv now deliveryId photoData metadata location st =
    (let photoEncrypted = encrypt P iv (base64_encode photoData) deliveryId;
         photo = \<lparr>photo_id = newId, photo_deliveryId = deliveryId,
                  photo_photoEncrypted = photoEncrypted, photo_metadata = metadata,
                  photo_sizeBytes = length photoData, photo_capturedAt = now,
                  photo_zoneId = None\<rparr>;
         st1 = st\<lparr>photoStore := (photoStore st)(newId \<mapsto> photo)\<rparr>
     in (photo, updateVerification deliveryId Photo now st1))"

definition getDeliveryPhoto ::
  "platform \<Rightarrow> UUID \<Rightarrow> UUID \<Rightarrow> verifier_state \<Rightarrow> (string \<times> PhotoMetadata \<times> nat) option" where
  "getDeliveryPhoto P photoId deliveryId st =
    (case photoStore st photoId of
       None \<Rightarrow> None
     | Some photo \<Rightarrow>
         if photo_deliveryId photo \<noteq> deliveryId then None
         else (case decrypt P (photo_photoEncrypted photo) deliveryId of
                 Inl err \<Rightarrow> None
               | Inr decrypted \<Rightarrow>
                   Some (base64_decode P decrypted, photo_metadata photo, photo_sizeBytes photo)))"

text \<open>
  \<open>storeSignature\<close>: the signer's name is encrypted only when it is given and not empty
  (\<^verbatim>\<open>signerName ? encrypt(...) : undefined\<close>), with a nonce of its own (\<open>iv2\<close>).
\<close>

definition storeSignature ::
  "platform \<Rightarrow> UUID \<Rightarrow> string \<Rightarrow> string \<Rightarrow> nat \<Rightarrow> UUID \<Rightarrow> string \<Rightarrow> string option
    \<Rightarrow> verifier_state \<Rightarrow> DeliverySignature \<times> verifier_state" where
  "storeSignature P newId iv iv2 now deliveryId signatureData signerName st =
    (let signatureHash = sha256 P signatureData;
         signatureEncrypted = encrypt P iv signatureData deliveryId;
         signature = \<lparr>sig_id = newId, sig_deliveryId = deliveryId,
                      sig_signatureEncrypted = signatureEncrypted,
                      sig_signatureHash = signatureHash, sig_capturedAt = now,
                      sig_signerName =
                        (case signerName of
                           None \<Rightarrow> None
                         | Some n \<Rightarrow> if n = [] then None else Some (encrypt P iv2 n deliveryId))\<rparr>;
         st1 = st\<lparr>signatureStore := (signatureStore st)(newId \<mapsto> signature)\<rparr>
     in (signature, updateVerification deliveryId Signature now st1))"

definition verifySignatureIntegrity :: "platform \<Rightarrow> UUID \<Rightarrow> UUID \<Rightarrow> verifier_state \<Rightarrow> bool" where
  "verifySignatureIntegrity P signatureId deliveryId st =
    (case signatureStore st signatureId of
       None \<Rightarrow> False
     | Some signature \<Rightarrow>
         if sig_deliveryId signature \<noteq> deliveryId then False
         else (case decrypt P (sig_signatureEncrypted signature) deliveryId of
                 Inl err \<Rightarrow> False
               | Inr decrypted \<Rightarrow> sha256 P decrypted = sig_signatureHash signature))"

definition DEFAULT_GEOFENCE_RADIUS :: real where
  "DEFAULT_GEOFENCE_RADIUS = 100"

definition verifyGeofence ::
  "platform \<Rightarrow> nat \<Rightarrow> UUID \<Rightarrow> RawCoordinates \<Rightarrow> RawCoordinates \<Rightarrow> real option \<Rightarrow> verifier_state
    \<Rightarrow> (bool \<times> real) \<times> verifier_state" where
  "verifyGeofence P now deliveryId driverLocation deliveryLocation radiusMeters st =
    (let radius = (case radiusMeters of None \<Rightarrow> DEFAULT_GEOFENCE_RADIUS | Some r \<Rightarrow> r);
         distance = calculateDistance P driverLocation deliveryLocation;
         isWithinGeofence = (distance \<le> radius)
     in ((isWithinGeofence, distance),
         if isWithinGeofence then updateVerification deliveryId Geofence now st else st))"

definition initializeVerification ::
  "UUID \<Rightarrow> UUID \<Rightarrow> VerificationMethod list \<Rightarrow> verifier_state
    \<Rightarrow> DeliveryVerification \<times> verifier_state" where
  "initializeVerification newId deliveryId requiredMethods st =
    (let verification = \<lparr>v_id = newId, v_deliveryId = deliveryId,
                         v_methodsRequired = requiredMethods, v_methodsCompleted = [],
                         v_isComplete = False, v_completedAt = None\<rparr>
     in (verification,
         st\<lparr>verificationStore := (verificationStore st)(deliveryId \<mapsto> verification)\<rparr>))"

definition getVerificationStatus :: "UUID \<Rightarrow> verifier_state \<Rightarrow> DeliveryVerification option" where
  "getVerificationStatus deliveryId st = verificationStore st deliveryId"

definition isDeliveryVerified :: "UUID \<Rightarrow> verifier_state \<Rightarrow> bool" where
  "isDeliveryVerified deliveryId st =
    (case verificationStore st deliveryId of None \<Rightarrow> False | Some v \<Rightarrow> v_isComplete v)"

definition getPendingMethods :: "UUID \<Rightarrow> verifier_state \<Rightarrow> VerificationMethod list" where
  "getPendingMethods deliveryId st =
    (case verificationStore st deliveryId of
       None \<Rightarrow> []
     | Some v \<Rightarrow> filter (\<lambda>m. m \<notin> set (v_methodsCompleted v)) (v_methodsRequired v))"

definition expectedFallbackCode :: "platform \<Rightarrow> UUID \<Rightarrow> string" where
  "expectedFallbackCode P deliveryId =
    toUpperCase (take 8 (hmacSha256 P deliveryId (cfg_hmacSecret P)))"

definition createFallbackVerification ::
  "platform \<Rightarrow> nat \<Rightarrow> UUID \<Rightarrow> string \<Rightarrow> verifier_state \<Rightarrow> bool \<times> verifier_state" where
  "createFallbackVerification P now deliveryId fallbackCode st =
    (let expectedCode = expectedFallbackCode P deliveryId;
         valid = (toUpperCase fallbackCode = expectedCode)
     in if valid
        then (case verificationStore st deliveryId of
                None \<Rightarrow> (valid, st)
              | Some verification \<Rightarrow>
                  (valid,
                   st\<lparr>verificationStore := (verificationStore st)
                        (deliveryId \<mapsto> verification\<lparr>v_isComplete := True,
                                                      v_completedAt := Some now,
                                                      v_methodsCompleted := [Code]\<rparr>)\<rparr>))
        else (valid, st))"

text \<open>
  The public operations that change the verifier's state, as calls with their arguments, and
  the state after a sequence of calls.
\<close>

datatype verifier_call =
    GenerateOTP string UUID string nat UUID UUID
  | VerifyOTP nat UUID string
  | StoreDeliveryPhoto UUID string nat UUID string PhotoMetadata "RawCoordinates option"
  | StoreSignature UUID string string nat UUID string "string option"
  | VerifyGeofence nat UUID RawCoordinates RawCoordinates "real option"
  | InitializeVerification UUID UUID "VerificationMethod list"
  | CreateFallbackVerification nat UUID string

fun verifier_step :: "platform \<Rightarrow> verifier_call \<Rightarrow> verifier_state \<Rightarrow> verifier_state" where
  "verifier_step P (GenerateOTP newSecret newId iv now d r) st =
     snd (generateOTP P newSecret newId iv now d r st)"
| "verifier_step P (VerifyOTP now d token) st = snd (verifyOTP P now d token st)"
| "verifier_step P (StoreDeliveryPhoto newId iv now d photoData metadata location) st =
     snd (storeDeliveryPhoto P newId iv now d photoData metadata location st)"
| "verifier_step P (StoreSignature newId iv iv2 now d signatureData signerName) st =
     snd (storeSignature P newId iv iv2 now d signatureData signerName st)"
| "verifier_step P (VerifyGeofence now d driverLocation deliveryLocation radius) st =
     snd (verifyGeofence P now d driverLocation deliveryLocation radius st)"
| "verifier_step P (InitializeVerification newId d requiredMethods) st =
     snd (initializeVerification newId d requiredMethods st)"
| "verifier_step P (CreateFallbackVerification now d code) st =
     snd (createFallbackVerification P now d code st)"

fun verifier_run :: "platform \<Rightarrow> verifier_call list \<Rightarrow> verifier_state \<Rightarrow> verifier_state" where
  "verifier_run P [] st = st"
| "verifier_run P (c # cs) st = verifier_run P cs (verifier_step P c st)"

fun initializes :: "UUID \<Rightarrow> verifier_call \<Rightarrow> bool" where
  "initializes d (InitializeVerification newId d' requiredMethods) = (d' = d)"
| "initializes d c = False"


text \<open>
  A stand-in for the external libraries, with which the scenarios below are evaluated: the
  token of every secret is \<^verbatim>\<open>123456\<close> at every time, the keystream is zero, and every distance
  is 16 metres.
\<close>

definition scenario_platform :: platform where
  "scenario_platform =
    \<lparr>cfg_encryptionKey = ''0123456789abcdef0123456789abcdef'',
     cfg_hmacSecret = ''fedcba9876543210fedcba9876543210'',
     cfg_otpTtlSeconds = 300,
     hmac_sha256 = (\<lambda>key input. take 32 (input @ key)),
     sha256_digest = (\<lambda>input. take 32 (input @ replicate 32 (CHR ''0''))),
     aes_ctr_keystream = (\<lambda>key iv i. CHR 0x00),
     gcm_auth_tag = (\<lambda>key iv body. take 16 (key @ iv)),
     base64_decode = (\<lambda>s. s),
     totp_generate = (\<lambda>secret now. ''123456''),
     totp_verify = (\<lambda>token secret now. token = ''123456''),
     calculateDistance = (\<lambda>a b. 16)\<rparr>"

section \<open>Notification dispatcher (notification-delivery/notifier.ts)\<close>

datatype NotificationChannel = Sms | Push | Whatsapp | Ussd | Email

datatype NotificationPriority = Low | Normal | High | Critical

datatype NotificationStatus = Pending | Sent | Delivered | Read | Failed

record NotificationRecord =
  n_id :: UUID
  n_recipientId :: UUID
  n_channel :: NotificationChannel
  n_priority :: NotificationPriority
  n_templateId :: string
  n_contentEncrypted :: string
  n_scheduledAt :: nat
  n_sentAt :: "nat option"
  n_deliveredAt :: "nat option"
  n_readAt :: "nat option"
  n_status :: NotificationStatus
  n_retryCount :: nat
  n_maxRetries :: nat
  n_failureReason :: "string option"

record UserPreferences =
  pref_channels :: "NotificationChannel list"
  pref_quiet :: "(string \<times> string) option"

record RateLimit =
  rl_count :: nat
  rl_resetAt :: nat

text \<open>
  \<open>notificationStore\<close> is iterated by \<open>getNotificationsForUser\<close>, so it is a list in insertion
  order. \<open>retryTimers\<close> holds the retries that \<open>scheduleRetry\<close> hands to \<^verbatim>\<open>setTimeout\<close>: the delay and
  the notification.
\<close>

record notifier_state =
  notificationStore :: "(UUID \<times> NotificationRecord) list"
  userPreferences :: "UUID \<rightharpoonup> UserPreferences"
  rateLimitStore :: "string \<rightharpoonup> RateLimit"
  retryTimers :: "(nat \<times> UUID) list"

definition notifier_init :: notifier_state where
  "notifier_init =
    \<lparr>notificationStore = [], userPreferences = Map.empty, rateLimitStore = Map.empty,
     retryTimers = []\<rparr>"

definition RETRY_DELAYS :: "nat list" where
  "RETRY_DELAYS = [1000, 5000, 30000, 60000, 300000]"

fun channel_name :: "NotificationChannel \<Rightarrow> string" where
  "channel_name Sms = ''sms''"
| "channel_name Push = ''push''"
| "channel_name Whatsapp = ''whatsapp''"
| "channel_name Ussd = ''ussd''"
| "channel_name Email = ''email''"

definition rateLimitKey :: "UUID \<Rightarrow> NotificationChannel \<Rightarrow> string" where
  "rateLimitKey recipientId channel = ''notify:'' @ recipientId @ '':'' @ channel_name channel"

text \<open>
  The channel adapters (\<open>deliverSMS\<close>, \<open>deliverPush\<close>, \<open>deliverWhatsApp\<close>, \<open>deliverUSSD\<close>,
  \<open>deliverEmail\<close>) only log, with or without their provider configured, and never throw: each
  returns normally, which is \<open>Inr ()\<close>.
\<close>

fun channel_adapter :: "NotificationChannel \<Rightarrow> string + unit" where
  "channel_adapter Sms = Inr ()"
| "channel_adapter Push = Inr ()"
| "channel_adapter Whatsapp = Inr ()"
| "channel_adapter Ussd = Inr ()"
| "channel_adapter Email = Inr ()"

definition scheduleRetry :: "NotificationRecord \<Rightarrow> notifier_state \<Rightarrow> NotificationRecord \<times> notifier_state" where
  "scheduleRetry notification st =
    (if n_retryCount notification \<ge> n_maxRetries notification
     then (let failed = notification\<lparr>n_status := Failed,
                                       n_failureReason := Some ''Max retries exceeded''\<rparr>
           in (failed, st\<lparr>notificationStore :=
                            AList.update (n_id notification) failed (notificationStore st)\<rparr>))
     else (let delay = (if n_retryCount notification < length RETRY_DELAYS
                        then RETRY_DELAYS ! n_retryCount notification else 60000);
               retried = notification\<lparr>n_retryCount := n_retryCount notification + 1\<rparr>
           in (retried,
               st\<lparr>notificationStore :=
                     AList.update (n_id notification) retried (notificationStore st),
                  retryTimers := retryTimers st @ [(delay, n_id notification)]\<rparr>)))"

definition deliverNotification ::
  "nat \<Rightarrow> NotificationRecord \<Rightarrow> notifier_state \<Rightarrow> NotificationRecord \<times> notifier_state" where
  "deliverNotification now notification st =
    (case channel_adapter (n_channel notification) of
       Inr ok \<Rightarrow>
         (let sent = notification\<lparr>n_sentAt := Some now, n_status := Sent\<rparr>
          in (sent, st\<lparr>notificationStore :=
                          AList.update (n_id notification) sent (notificationStore st)\<rparr>))
     | Inl err \<Rightarrow> scheduleRetry notification st)"

definition rate_limited :: "nat \<Rightarrow> UUID \<Rightarrow> NotificationChannel \<Rightarrow> notifier_state \<Rightarrow> bool" where
  "rate_limited now recipientId channel st =
    (case rateLimitStore st (rateLimitKey recipientId channel) of
       None \<Rightarrow> False
     | Some rateLimit \<Rightarrow> rl_resetAt rateLimit > now \<and> rl_count rateLimit \<ge> 10)"

text \<open>
  \<open>sendNotification\<close>: \<^verbatim>\<open>throw new Error('Rate limited')\<close> is \<open>Inl ''Rate limited''\<close>. The stored
  record is the object that \<open>deliverNotification\<close> then mutates.
\<close>

definition sendNotification ::
  "platform \<Rightarrow> UUID \<Rightarrow> string \<Rightarrow> nat \<Rightarrow> UUID \<Rightarrow> NotificationChannel \<Rightarrow> string \<Rightarrow> string
    \<Rightarrow> NotificationPriority \<Rightarrow> notifier_state \<Rightarrow> (string + NotificationRecord) \<times> notifier_state" where
  "sendNotification P newId iv now recipientId channel templateId content priority st =
    (if rate_limited now recipientId channel st then (Inl ''Rate limited'', st)
     else
       (let contentEncrypted = encrypt P iv content recipientId;
            notification =
              \<lparr>n_id = newId, n_recipientId = recipientId, n_channel = channel,
               n_priority = priority, n_templateId = templateId,
               n_contentEncrypted = contentEncrypted, n_scheduledAt = now, n_sentAt = None,
               n_deliveredAt = None, n_readAt = None, n_status = Pending, n_retryCount = 0,
               n_maxRetries = length RETRY_DELAYS, n_failureReason = None\<rparr>;
            st1 = st\<lparr>notificationStore := AList.update newId notification (notificationStore st)\<rparr>;
            st2 = (case rateLimitStore st1 (rateLimitKey recipientId channel) of
                     Some rateLimit \<Rightarrow>
                       st1\<lparr>rateLimitStore := (rateLimitStore st1)
                             (rateLimitKey recipientId channel \<mapsto>
                                rateLimit\<lparr>rl_count := rl_count rateLimit + 1\<rparr>)\<rparr>
                   | None \<Rightarrow>
                       st1\<lparr>rateLimitStore := (rateLimitStore st1)
                             (rateLimitKey recipientId channel \<mapsto>
                                \<lparr>rl_count = 1, rl_resetAt = now + 60000\<rparr>)\<rparr>);
            (delivered, st3) = deliverNotification now notification st2
        in (Inr delivered, st3)))"

definition getNotification :: "UUID \<Rightarrow> notifier_state \<Rightarrow> NotificationRecord option" where
  "getNotification notificationId st = map_of (notificationStore st) notificationId"

definition getNotificationsForUser :: "UUID \<Rightarrow> notifier_state \<Rightarrow> NotificationRecord list" where
  "getNotificationsForUser recipientId st =
    filter (\<lambda>n. n_recipientId n = recipientId) (map snd (notificationStore st))"

definition setUserPreferences ::
  "UUID \<Rightarrow> NotificationChannel list \<Rightarrow> (string \<times> string) option \<Rightarrow> notifier_state \<Rightarrow> notifier_state" where
  "setUserPreferences userId channels quiet st =
    st\<lparr>userPreferences := (userPreferences st)
         (userId \<mapsto> \<lparr>pref_channels = channels, pref_quiet = quiet\<rparr>)\<rparr>"

definition getUserPreferences :: "UUID \<Rightarrow> notifier_state \<Rightarrow> UserPreferences" where
  "getUserPreferences userId st =
    (case userPreferences st userId of
       Some prefs \<Rightarrow> prefs
     | None \<Rightarrow> \<lparr>pref_channels = [Sms, Push], pref_quiet = None\<rparr>)"

definition markAsDelivered :: "nat \<Rightarrow> UUID \<Rightarrow> notifier_state \<Rightarrow> bool \<times> notifier_state" where
  "markAsDelivered now notificationId st =
    (case map_of (notificationStore st) notificationId of
       None \<Rightarrow> (False, st)
     | Some notification \<Rightarrow>
         (True, st\<lparr>notificationStore :=
                     AList.update notificationId
                       (notification\<lparr>n_deliveredAt := Some now, n_status := Delivered\<rparr>)
                       (notificationStore st)\<rparr>))"

definition markAsRead :: "nat \<Rightarrow> UUID \<Rightarrow> notifier_state \<Rightarrow> bool \<times> notifier_state" where
  "markAsRead now notificationId st =
    (case map_of (notificationStore st) notificationId of
       None \<Rightarrow> (False, st)
     | Some notification \<Rightarrow>
         (True, st\<lparr>notificationStore :=
                     AList.update notificationId
                       (notification\<lparr>n_readAt := Some now, n_status := Read\<rparr>)
                       (notificationStore st)\<rparr>))"

section \<open>Real-time broadcaster (realtime-broadcast/broadcaster.ts)\<close>

record Audience =
  aud_deliveryId :: "UUID option"
  aud_userIds :: "UUID list option"
  aud_roles :: "UserRole list option"

record RealtimeEvent =
  ev_type :: string
  ev_timestamp :: nat
  ev_audience :: Audience
  ev_payload :: string
  ev_eventId :: string

text \<open>What a socket is sent: \<^verbatim>\<open>emit('event', e)\<close>, \<^verbatim>\<open>emit('authenticated', {success})\<close>,
  \<^verbatim>\<open>emit('pong', {timestamp})\<close>.\<close>

datatype Message = EventMsg RealtimeEvent | AuthenticatedMsg bool | PongMsg nat

record Client =
  client_userId :: UUID
  client_role :: UserRole

text \<open>
  A socket is named by its id. \<open>io\<close> says whether the server object exists (\<^verbatim>\<open>io !== null\<close>).
  \<open>clients\<close> is iterated by \<open>broadcast\<close> and is a list in insertion order. A JavaScript \<^verbatim>\<open>Set\<close>
  of socket ids is a list without repetition, with \<open>set_add\<close> and \<^const>\<open>removeAll\<close>.
  \<open>ioRooms\<close> is the room membership that socket.io keeps for \<^verbatim>\<open>socket.join\<close>, \<^verbatim>\<open>socket.leave\<close> and
  \<^verbatim>\<open>io.to(room).emit\<close>, by room name; socket.io removes a socket from its rooms when it
  disconnects. \<open>emitted\<close> records every message sent, with its socket, in the order of the
  calls.
\<close>

record broadcaster_state =
  io :: bool
  clients :: "(string \<times> Client) list"
  offlineQueue :: "UUID \<rightharpoonup> RealtimeEvent list"
  deliveryRooms :: "UUID \<rightharpoonup> string list"
  ioRooms :: "string \<Rightarrow> string list"
  emitted :: "(string \<times> Message) list"

definition broadcaster_init :: broadcaster_state where
  "broadcaster_init =
    \<lparr>io = False, clients = [], offlineQueue = Map.empty, deliveryRooms = Map.empty,
     ioRooms = (\<lambda>room. []), emitted = []\<rparr>"

definition set_add :: "'a \<Rightarrow> 'a list \<Rightarrow> 'a list" where
  "set_add x xs = (if x \<in> set xs then xs else xs @ [x])"

definition emit :: "string \<Rightarrow> Message \<Rightarrow> broadcaster_state \<Rightarrow> broadcaster_state" where
  "emit socketId msg st = st\<lparr>emitted := emitted st @ [(socketId, msg)]\<rparr>"

definition emit_each :: "string list \<Rightarrow> Message \<Rightarrow> broadcaster_state \<Rightarrow> broadcaster_state" where
  "emit_each socketIds msg st = foldl (\<lambda>s socketId. emit socketId msg s) st socketIds"

definition room_name :: "UUID \<Rightarrow> string" where
  "room_name deliveryId = ''delivery:'' @ deliveryId"

text \<open>\<open>initializeWebSocket\<close> creates the server object, whose rooms are empty.\<close>

definition initializeWebSocket :: "broadcaster_state \<Rightarrow> broadcaster_state" where
  "initializeWebSocket st = st\<lparr>io := True, ioRooms := (\<lambda>room. [])\<rparr>"

text \<open>The handlers that \<open>initializeWebSocket\<close> registers on a connected socket.\<close>

definition on_authenticate :: "string \<Rightarrow> UUID \<Rightarrow> UserRole \<Rightarrow> broadcaster_state \<Rightarrow> broadcaster_state" where
  "on_authenticate socketId userId role st =
    (let st1 = st\<lparr>clients := AList.update socketId
                      \<lparr>client_userId = userId, client_role = role\<rparr> (clients st)\<rparr>;
         st2 = (case offlineQueue st1 userId of
                  None \<Rightarrow> st1
                | Some queued \<Rightarrow>
                    if length queued > 0
                    then (foldl (\<lambda>s event. emit socketId (EventMsg event) s) st1 queued)
                           \<lparr>offlineQueue := (offlineQueue st1)(userId := None)\<rparr>
                    else st1)
     in emit socketId (AuthenticatedMsg True) st2)"

definition on_subscribe :: "string \<Rightarrow> UUID \<Rightarrow> broadcaster_state \<Rightarrow> broadcaster_state" where
  "on_subscribe socketId deliveryId st =
    (let room = (case deliveryRooms st deliveryId of None \<Rightarrow> [] | Some r \<Rightarrow> r)
     in st\<lparr>ioRooms := (ioRooms st)(room_name deliveryId :=
                          set_add socketId (ioRooms st (room_name deliveryId))),
           deliveryRooms := (deliveryRooms st)(deliveryId \<mapsto> set_add socketId room)\<rparr>)"

definition on_unsubscribe :: "string \<Rightarrow> UUID \<Rightarrow> broadcaster_state \<Rightarrow> broadcaster_state" where
  "on_unsubscribe socketId deliveryId st =
    st\<lparr>ioRooms := (ioRooms st)(room_name deliveryId :=
                      removeAll socketId (ioRooms st (room_name deliveryId))),
       deliveryRooms := (case deliveryRooms st deliveryId of
                           None \<Rightarrow> deliveryRooms st
                         | Some room \<Rightarrow>
                             (deliveryRooms st)(deliveryId \<mapsto> removeAll socketId room))\<rparr>"

definition on_disconnect :: "string \<Rightarrow> broadcaster_state \<Rightarrow> broadcaster_state" where
  "on_disconnect socketId st =
    st\<lparr>clients := AList.delete socketId (clients st),
       deliveryRooms := (\<lambda>d. map_option (removeAll socketId) (deliveryRooms st d)),
       ioRooms := (\<lambda>room. removeAll socketId (ioRooms st room))\<rparr>"

definition on_ping :: "string \<Rightarrow> nat \<Rightarrow> broadcaster_state \<Rightarrow> broadcaster_state" where
  "on_ping socketId now st = emit socketId (PongMsg now) st"

text \<open>
  The three parts of \<open>broadcast\<close>. \<^verbatim>\<open>if (audience.deliveryId)\<close> is false for a missing id and
  for the empty string; \<^verbatim>\<open>audience.userIds && audience.userIds.length > 0\<close> is false for a
  missing or empty list, and so for the roles.
\<close>

definition broadcast_room :: "RealtimeEvent \<Rightarrow> broadcaster_state \<Rightarrow> broadcaster_state" where
  "broadcast_room event st =
    (case aud_deliveryId (ev_audience event) of
       None \<Rightarrow> st
     | Some deliveryId \<Rightarrow>
         if deliveryId = [] then st
         else emit_each (ioRooms st (room_name deliveryId)) (EventMsg event) st)"

definition isOnline :: "UUID \<Rightarrow> broadcaster_state \<Rightarrow> bool" where
  "isOnline userId st = list_ex (\<lambda>c. client_userId c = userId) (map snd (clients st))"

definition enqueue_offline :: "RealtimeEvent \<Rightarrow> UUID \<Rightarrow> broadcaster_state \<Rightarrow> broadcaster_state" where
  "enqueue_offline event userId st =
    (if \<not> isOnline userId st
     then (let queue = (case offlineQueue st userId of None \<Rightarrow> [] | Some q \<Rightarrow> q) @ [event];
               queue' = (if length queue > 50 then tl queue else queue)
           in st\<lparr>offlineQueue := (offlineQueue st)(userId \<mapsto> queue')\<rparr>)
     else st)"

definition broadcast_users :: "RealtimeEvent \<Rightarrow> broadcaster_state \<Rightarrow> broadcaster_state" where
  "broadcast_users event st =
    (case aud_userIds (ev_audience event) of
       None \<Rightarrow> st
     | Some userIds \<Rightarrow>
         if userIds = [] then st
         else
           (let st1 = emit_each
                        (map fst (filter (\<lambda>(socketId, client). client_userId client \<in> set userIds)
                                    (clients st)))
                        (EventMsg event) st
            in foldl (\<lambda>s userId. enqueue_offline event userId s) st1 userIds))"

definition broadcast_roles :: "RealtimeEvent \<Rightarrow> broadcaster_state \<Rightarrow> broadcaster_state" where
  "broadcast_roles event st =
    (case aud_roles (ev_audience event) of
       None \<Rightarrow> st
     | Some roles \<Rightarrow>
         if roles = [] then st
         else emit_each
                (map fst (filter (\<lambda>(socketId, client). client_role client \<in> set roles)
                            (clients st)))
                (EventMsg event) st)"

definition broadcast :: "RealtimeEvent \<Rightarrow> broadcaster_state \<Rightarrow> broadcaster_state" where
  "broadcast event st =
    (if \<not> io st then st
     else broadcast_roles event (broadcast_users event (broadcast_room event st)))"

definition closeWebSocket :: "broadcaster_state \<Rightarrow> broadcaster_state" where
  "closeWebSocket st =
    (if io st
     then st\<lparr>io := False, clients := [], deliveryRooms := Map.empty,
             offlineQueue := Map.empty, ioRooms := (\<lambda>room. [])\<rparr>
     else st)"

text \<open>What can happen to the broadcaster, and the state after a sequence of such steps.\<close>

datatype broadcaster_action =
    InitializeWebSocket
  | Authenticate string UUID UserRole
  | Subscribe string UUID
  | Unsubscribe string UUID
  | Disconnect string
  | Ping string nat
  | Broadcast RealtimeEvent
  | CloseWebSocket

fun broadcaster_step :: "broadcaster_action \<Rightarrow> broadcaster_state \<Rightarrow> broadcaster_state" where
  "broadcaster_step InitializeWebSocket st = initializeWebSocket st"
| "broadcaster_step (Authenticate socketId userId role) st = on_authenticate socketId userId role st"
| "broadcaster_step (Subscribe socketId deliveryId) st = on_subscribe socketId deliveryId st"
| "broadcaster_step (Unsubscribe socketId deliveryId) st = on_unsubscribe socketId deliveryId st"
| "broadcaster_step (Disconnect socketId) st = on_disconnect socketId st"
| "broadcaster_step (Ping socketId now) st = on_ping socketId now st"
| "broadcaster_step (Broadcast event) st = broadcast event st"
| "broadcaster_step CloseWebSocket st = closeWebSocket st"

fun broadcaster_run :: "broadcaster_action list \<Rightarrow> broadcaster_state \<Rightarrow> broadcaster_state" where
  "broadcaster_run [] st = st"
| "broadcaster_run (a # as) st = broadcaster_run as (broadcaster_step a st)"

definition broadcast_all :: "RealtimeEvent list \<Rightarrow> broadcaster_state \<Rightarrow> broadcaster_state" where
  "broadcast_all events st = foldl (\<lambda>s event. broadcast event s) st events"

text \<open>
  The messages one \<open>broadcast\<close> call sends (what it appends to \<open>emitted\<close>), and how many of
  them go to a given socket.
\<close>

definition sent_by_broadcast :: "RealtimeEvent \<Rightarrow> broadcaster_state \<Rightarrow> (string \<times> Message) list" where
  "sent_by_broadcast event st = drop (length (emitted st)) (emitted (broadcast event st))"

definition deliveries_to :: "string \<Rightarrow> RealtimeEvent \<Rightarrow> broadcaster_state \<Rightarrow> nat" where
  "deliveries_to socketId event st =
    count_list (sent_by_broadcast event st) (socketId, EventMsg event)"

text \<open>The three audience criteria a socket can satisfy.\<close>

definition in_room_audience :: "string \<Rightarrow> RealtimeEvent \<Rightarrow> broadcaster_state \<Rightarrow> bool" where
  "in_room_audience socketId event st =
    (case aud_deliveryId (ev_audience event) of
       None \<Rightarrow> False
     | Some deliveryId \<Rightarrow> deliveryId \<noteq> [] \<and> socketId \<in> set (ioRooms st (room_name deliveryId)))"

definition in_user_audience :: "string \<Rightarrow> RealtimeEvent \<Rightarrow> broadcaster_state \<Rightarrow> bool" where
  "in_user_audience socketId event st =
    (case (aud_userIds (ev_audience event), map_of (clients st) socketId) of
       (Some userIds, Some client) \<Rightarrow> client_userId client \<in> set userIds
     | _ \<Rightarrow> False)"

definition in_role_audience :: "string \<Rightarrow> RealtimeEvent \<Rightarrow> broadcaster_state \<Rightarrow> bool" where
  "in_role_audience socketId event st =
    (case (aud_roles (ev_audience event), map_of (clients st) socketId) of
       (Some roles, Some client) \<Rightarrow> client_role client \<in> set roles
     | _ \<Rightarrow> False)"

definition queue_of :: "UUID \<Rightarrow> broadcaster_state \<Rightarrow> RealtimeEvent list" where
  "queue_of userId st = (case offlineQueue st userId of None \<Rightarrow> [] | Some q \<Rightarrow> q)"

definition only_user :: "UUID \<Rightarrow> Audience" where
  "only_user userId = \<lparr>aud_deliveryId = None, aud_userIds = Some [userId], aud_roles = None\<rparr>"

definition broadcaster_wf :: "broadcaster_state \<Rightarrow> bool" where
  "broadcaster_wf st =
    (distinct (map fst (clients st)) \<and> (\<forall>room. distinct (ioRooms st room))
     \<and> (\<forall>userId q. offlineQueue st userId = Some q \<longrightarrow> q \<noteq> [] \<and> length q \<le> 50))"

text \<open>
  Scenario S5 of the specification: user U2 is offline and 51 events are addressed to U2.
  And a session that satisfies all three audience criteria of one event.
\<close>

definition queued_event :: "nat \<Rightarrow> RealtimeEvent" where
  "queued_event n =
    \<lparr>ev_type = ''delivery:status_update'', ev_timestamp = n, ev_audience = only_user ''U2'',
     ev_payload = ''status'', ev_eventId = ''D5-'' @ replicate n (CHR ''I'')\<rparr>"

definition overlap_event :: RealtimeEvent where
  "overlap_event =
    \<lparr>ev_type = ''alert:security'', ev_timestamp = 9000,
     ev_audience = \<lparr>aud_deliveryId = Some ''D1'', aud_userIds = Some [''U1''],
                    aud_roles = Some [Security_officer, Admin]\<rparr>,
     ev_payload = ''alert'', ev_eventId = ''alert-9000''\<rparr>"

definition overlap_scenario :: "broadcaster_action list" where
  "overlap_scenario =
    [InitializeWebSocket, Authenticate ''s1'' ''U1'' Admin, Subscribe ''s1'' ''D1'']"

section \<open>Predicates of the statements\<close>

text \<open>
  The rule that relates \<open>isComplete\<close> to the method lists in every reachable record: the
  record is complete exactly when the fallback has written \<open>Code\<close> into the completed
  methods, or some method has completed and the required methods are all among the
  completed ones.
\<close>

definition completion_rule :: "DeliveryVerification \<Rightarrow> bool" where
  "completion_rule v =
    (v_isComplete v \<longleftrightarrow>
       (Code \<in> set (v_methodsCompleted v)
        \<or> (v_methodsCompleted v \<noteq> [] \<and> set (v_methodsRequired v) \<subseteq> set (v_methodsCompleted v))))"

definition all_records :: "(DeliveryVerification \<Rightarrow> bool) \<Rightarrow> verifier_state \<Rightarrow> bool" where
  "all_records Q st = (\<forall>d v. verificationStore st d = Some v \<longrightarrow> Q v)"


definition invalid_otp_result :: "int \<Rightarrow> OTPResult" where
  "invalid_otp_result remaining =
    \<lparr>isValid = False, reason = Some ''invalid_otp'', remainingAttempts = Some remaining\<rparr>"

definition max_attempts_result :: OTPResult where
  "max_attempts_result =
    \<lparr>isValid = False, reason = Some ''max_attempts_exceeded'', remainingAttempts = Some 0\<rparr>"

definition otp_expired_result :: OTPResult where
  "otp_expired_result =
    \<lparr>isValid = False, reason = Some ''otp_expired'', remainingAttempts = None\<rparr>"

definition no_pending_result :: OTPResult where
  "no_pending_result =
    \<lparr>isValid = False, reason = Some ''no_pending_otp'', remainingAttempts = None\<rparr>"

definition valid_otp_result :: OTPResult where
  "valid_otp_result = \<lparr>isValid = True, reason = None, remainingAttempts = None\<rparr>"

text \<open>No stored emergency has the status \<^verbatim>\<open>'triggered'\<close>.\<close>

definition no_triggered :: "emergency_state \<Rightarrow> bool" where
  "no_triggered st = list_all (\<lambda>entry. e_status (snd entry) \<noteq> Triggered) (emergencyStore st)"

text \<open>
  The sockets that the three parts of one \<open>broadcast\<close> call send to, in the order of the calls,
  and the most recent 50 elements of a list.
\<close>

definition room_targets :: "RealtimeEvent \<Rightarrow> broadcaster_state \<Rightarrow> string list" where
  "room_targets event st =
    (case aud_deliveryId (ev_audience event) of
       None \<Rightarrow> []
     | Some deliveryId \<Rightarrow> if deliveryId = [] then [] else ioRooms st (room_name deliveryId))"

definition user_targets :: "RealtimeEvent \<Rightarrow> broadcaster_state \<Rightarrow> string list" where
  "user_targets event st =
    (case aud_userIds (ev_audience event) of
       None \<Rightarrow> []
     | Some userIds \<Rightarrow>
         map fst (filter (\<lambda>(socketId, client). client_userId client \<in> set userIds) (clients st)))"

definition role_targets :: "RealtimeEvent \<Rightarrow> broadcaster_state \<Rightarrow> string list" where
  "role_targets event st =
    (case aud_roles (ev_audience event) of
       None \<Rightarrow> []
     | Some roles \<Rightarrow>
         map fst (filter (\<lambda>(socketId, client). client_role client \<in> set roles) (clients st)))"

definition last50 :: "'a list \<Rightarrow> 'a list" where
  "last50 xs = drop (length xs - 50) xs"

section \<open>Scenarios\<close>

text \<open>
  The states and call sequences at which the statements below are evaluated. In
  \<open>otp_scenario\<close> delivery D2 requires the OTP and one OTP has been generated at time 1000; it
  expires at 301000.
\<close>

definition otp_scenario_record :: OTPRecord where
  "otp_scenario_record =
    \<lparr>otp_id = ''O1'', otp_deliveryId = ''D2'', otp_recipientId = ''R1'',
     otp_otpEncrypted = encrypt scenario_platform ''0123456789ab'' ''123456'' ''D2'',
     otp_expiresAt = 301000, otp_createdAt = 1000, otp_attemptCount = 0,
     otp_isVerified = False, otp_verifiedAt = None\<rparr>"

definition otp_scenario :: verifier_state where
  "otp_scenario =
    verifier_run scenario_platform
      [InitializeVerification ''V2'' ''D2'' [Otp],
       GenerateOTP ''JBSWY3DPEHPK3PXP'' ''O1'' ''0123456789ab'' 1000 ''D2'' ''R1'']
      verifier_init"

text \<open>
  In \<open>otp_twice_scenario\<close> a second OTP is generated for D2 at time 1500, before any is
  verified: the delivery keeps its secret and has two pending records, O1 and O2.
\<close>

definition otp_second_record :: OTPRecord where
  "otp_second_record =
    \<lparr>otp_id = ''O2'', otp_deliveryId = ''D2'', otp_recipientId = ''R1'',
     otp_otpEncrypted = encrypt scenario_platform ''ba9876543210'' ''123456'' ''D2'',
     otp_expiresAt = 301500, otp_createdAt = 1500, otp_attemptCount = 0,
     otp_isVerified = False, otp_verifiedAt = None\<rparr>"

definition otp_twice_scenario :: verifier_state where
  "otp_twice_scenario =
    verifier_run scenario_platform
      [InitializeVerification ''V2'' ''D2'' [Otp],
       GenerateOTP ''JBSWY3DPEHPK3PXP'' ''O1'' ''0123456789ab'' 1000 ''D2'' ''R1'',
       GenerateOTP ''MFRGGZDFMZTWQ2LK'' ''O2'' ''ba9876543210'' 1500 ''D2'' ''R1'']
      verifier_init"

definition photo_scenario :: "verifier_call list" where
  "photo_scenario =
    [InitializeVerification ''V1'' ''D1'' [Photo],
     StoreDeliveryPhoto ''P1'' ''0123456789ab'' 2000 ''D1'' ''JPEG''
       \<lparr>meta_width = 640, meta_height = 480, meta_mimeType = ''image/jpeg''\<rparr> None]"

definition fallback_scenario :: "verifier_call list" where
  "fallback_scenario =
    [InitializeVerification ''V4'' ''D4'' [Otp],
     CreateFallbackVerification 5000 ''D4'' ''44346665'']"

text \<open>
  User U1 has chosen the SMS channel only. And the broadcaster after 50 events were addressed
  to the offline user U2.
\<close>

definition preference_scenario :: notifier_state where
  "preference_scenario = setUserPreferences ''U1'' [Sms] None notifier_init"

definition full_queue_scenario :: broadcaster_state where
  "full_queue_scenario =
    broadcaster_run (InitializeWebSocket # map Broadcast (map queued_event [0..<50]))
      broadcaster_init"

chapter \<open>Verification\<close>

section \<open>Access control\<close>

lemma wildcard_roles: "getUserPermissions r = [''*''] \<longleftrightarrow> r = Admin \<or> r = System"
  by (cases r) (simp_all add: getUserPermissions_def ROLE_PERMISSIONS_def)

text \<open>
  C10. A request authenticated by \<open>authMiddleware\<close> as admin or system (the roles whose grant
  list is exactly \<^verbatim>\<open>['*']\<close>) is answered 403 FORBIDDEN by \<open>requirePermission p\<close> for every
  permission \<open>p\<close> other than the literal \<^verbatim>\<open>'*'\<close>, although \<open>hasPermission\<close> grants \<open>p\<close> to that
  role: the middleware looks \<open>p\<close> up in the grant list and never expands the wildcard.
\<close>

theorem requirePermission_rejects_wildcard_roles:
  assumes "r = Admin \<or> r = System"
    and "p \<noteq> ''*''"
    and "jwt_verify tok secret = Some \<lparr>jwt_userId = u, jwt_role = r, jwt_exp = e\<rparr>"
  shows "\<exists>req'. authMiddleware jwt_verify secret (Some (''Bearer '' @ tok)) req = (req', Next)
           \<and> req_user req' = Some \<lparr>user_id = u, user_role = r, user_permissions = [''*'']\<rparr>
           \<and> requirePermission p req' = Respond 403 ''FORBIDDEN''
           \<and> hasPermission r p"
proof -
  from assms(1) have perms: "getUserPermissions r = [''*'']"
    by (simp add: wildcard_roles)
  have "authMiddleware jwt_verify secret (Some (''Bearer '' @ tok)) req =
          (req\<lparr>req_user := Some \<lparr>user_id = u, user_role = r, user_permissions = [''*'']\<rparr>\<rparr>, Next)"
    using assms(3) perms by (simp add: authMiddleware_def)
  moreover have "requirePermission p
      (req\<lparr>req_user := Some \<lparr>user_id = u, user_role = r, user_permissions = [''*'']\<rparr>\<rparr>)
      = Respond 403 ''FORBIDDEN''"
    using assms(2) by (simp add: requirePermission_def)
  moreover have "hasPermission r p"
    using perms by (simp add: hasPermission_def)
  ultimately show ?thesis by simp
qed

theorem requirePermission_rejects_wildcard_roles_witness:
  "(Admin = Admin \<or> Admin = System) \<and> ''read:audit'' \<noteq> ''*''
   \<and> (\<exists>req'. authMiddleware (\<lambda>t s. Some \<lparr>jwt_userId = ''U9'', jwt_role = Admin, jwt_exp = 0\<rparr>)
                ''secret'' (Some (''Bearer '' @ ''tok'')) \<lparr>req_user = None\<rparr> = (req', Next)
           \<and> req_user req' = Some \<lparr>user_id = ''U9'', user_role = Admin, user_permissions = [''*'']\<rparr>
           \<and> requirePermission ''read:audit'' req' = Respond 403 ''FORBIDDEN''
           \<and> hasPermission Admin ''read:audit'')"
  using requirePermission_rejects_wildcard_roles
    [of Admin "''read:audit''" "\<lambda>t s. Some \<lparr>jwt_userId = ''U9'', jwt_role = Admin, jwt_exp = 0\<rparr>"
        "''tok''" "''secret''" "''U9''" 0 "\<lparr>req_user = None\<rparr>"]
  by simp

section \<open>Emergency orchestrator\<close>

lemma list_all_AList_update:
  "list_all Q xs \<Longrightarrow> Q (k, v) \<Longrightarrow> list_all Q (AList.update k v xs)"
  by (induction xs) auto

text \<open>
  Every operation of the orchestrator leaves no stored record in the status \<^verbatim>\<open>'triggered'\<close>:
  a new record is set to \<^verbatim>\<open>'responding'\<close> before the call that created it returns. So the lookup
  at the head of \<open>triggerPanicButton\<close> never finds a record to return, and every call creates
  a record under the fresh id.
\<close>

lemma map_of_list_all: "map_of al k = Some v \<Longrightarrow> list_all Q al \<Longrightarrow> Q (k, v)"
  by (induction al) (auto split: if_splits)

lemma existingTriggered_None: "no_triggered st \<Longrightarrow> existingTriggered driverId st = None"
  by (auto simp add: existingTriggered_def no_triggered_def split: option.splits
      dest: map_of_list_all)

lemma no_triggered_init: "no_triggered emergency_init"
  by (simp add: no_triggered_def emergency_init_def)

lemma triggerPanicButton_always_creates:
  assumes "no_triggered st"
  shows "e_id (fst (triggerPanicButton newId now driverId location deliveryId st)) = newId
    \<and> e_status (fst (triggerPanicButton newId now driverId location deliveryId st)) = Responding
    \<and> map_of (emergencyStore (snd (triggerPanicButton newId now driverId location deliveryId st)))
         newId
       = Some (fst (triggerPanicButton newId now driverId location deliveryId st))
    \<and> no_triggered (snd (triggerPanicButton newId now driverId location deliveryId st))"
  using assms existingTriggered_None [OF assms, of driverId]
  by (simp add: triggerPanicButton_def createEmergencyRecord_def initiateEmergencyResponse_def
      Let_def no_triggered_def list_all_AList_update AList.update_conv')

lemma processAccelerometerData_no_triggered:
  "no_triggered st \<Longrightarrow>
   no_triggered (snd (processAccelerometerData newId now driverId reading location deliveryId st))"
  by (simp add: processAccelerometerData_def createEmergencyRecord_def
      initiateEmergencyResponse_def Let_def no_triggered_def list_all_AList_update)

lemma acknowledgeEmergency_no_triggered:
  "no_triggered st \<Longrightarrow> no_triggered (snd (acknowledgeEmergency emergencyId actor st))"
  by (simp add: acknowledgeEmergency_def no_triggered_def list_all_AList_update
      split: option.splits)

lemma setEmergencyContacts_no_triggered:
  "no_triggered st \<Longrightarrow> no_triggered (setEmergencyContacts driverId contacts st)"
  by (simp add: setEmergencyContacts_def no_triggered_def)

lemma resolveEmergency_no_triggered:
  "no_triggered st \<Longrightarrow> no_triggered (snd (resolveEmergency emergencyId actor st))"
  by (simp add: resolveEmergency_def no_triggered_def list_all_AList_update
      split: option.splits)

text \<open>
  C1. The claim asks that a second \<open>triggerPanicButton\<close> for a driver with a non-resolved
  emergency returns the existing record. The code returns the existing record only while its
  status is \<^verbatim>\<open>'triggered'\<close>, and every record leaves that status before the first call returns
  (\<open>initiateEmergencyResponse\<close> sets \<^verbatim>\<open>'responding'\<close>). Evaluated on two panic triggers in
  sequence for driver U1: the second call creates a second record with a new id, and the
  driver then has two non-resolved emergencies.
\<close>

theorem triggerPanicButton_twice_creates_two_records:
  "(let (r1, s1) = triggerPanicButton ''E1'' 1000 ''U1'' nairobi (Some ''D3'') emergency_init;
        (r2, s2) = triggerPanicButton ''E2'' 2000 ''U1'' nairobi (Some ''D3'') s1
    in e_id r1 = ''E1'' \<and> e_status r1 = Responding
       \<and> getActiveEmergency ''U1'' s1 = Some r1
       \<and> e_id r2 = ''E2'' \<and> e_id r2 \<noteq> e_id r1
       \<and> map e_id (filter (\<lambda>e. e_driverId e = ''U1'') (getAllActiveEmergencies s2))
           = [''E1'', ''E2''])"
  by (simp add: triggerPanicButton_def existingTriggered_def createEmergencyRecord_def
      initiateEmergencyResponse_def emergency_init_def getActiveEmergency_def
      getAllActiveEmergencies_def Let_def)

section \<open>Encodings and crypto primitives\<close>

lemma b64_digit_in_alphabet: "b64_digit n \<in> set b64_alphabet"
proof -
  have "length b64_alphabet = 64" by (simp add: b64_alphabet_def)
  then have "n mod 64 < length b64_alphabet" by simp
  then show ?thesis unfolding b64_digit_def by (rule nth_mem)
qed

lemma b64_digit_not_colon: "b64_digit n \<noteq> CHR '':''"
proof -
  have "CHR '':'' \<notin> set b64_alphabet" by (simp add: b64_alphabet_def)
  with b64_digit_in_alphabet [of n] show ?thesis by metis
qed

lemma base64_encode_no_colon: "CHR '':'' \<notin> set (base64_encode bs)"
  by (induction bs rule: base64_encode.induct) (simp_all add: Let_def b64_digit_not_colon b64_digit_not_colon [THEN not_sym])

lemma split_on_no_sep: "c \<notin> set a \<Longrightarrow> split_on c a = [a]"
  by (induction a) auto

lemma split_on_append: "c \<notin> set a \<Longrightarrow> split_on c (a @ c # rest) = a # split_on c rest"
  by (induction a) auto

lemma to_upper_idem: "to_upper (to_upper c) = to_upper c"
  by (auto simp add: to_upper_def Let_def)

text \<open>
  C7. The round trip \<open>decrypt (encrypt t ctx) ctx = t\<close> fails for the empty plaintext: the body of
  the ciphertext is then empty, the wire form ends in a colon, and \<open>decrypt\<close> rejects an empty
  third segment as an invalid format, for every key, nonce and context.
\<close>

theorem decrypt_encrypt_empty_plaintext:
  "decrypt P (encrypt P iv [] contextId) contextId = Inl Invalid_encryption_format"
  by (simp add: decrypt_def encrypt_def gcm_body_def split_on_append base64_encode_no_colon)

text \<open>
  The failure is confined to the empty plaintext. When the library's base64 decoder inverts
  the encoder, and the nonce and the tag are not empty (they have 12 and 16 bytes in the
  source), every non-empty plaintext is returned by the round trip. Under another context the
  outcome is decided by the library alone: the call fails exactly when the tag computed with
  the other derived key differs.
\<close>

lemma xor_char_involution: "xor_char (xor_char c k) k = c"
proof -
  have tb: "take_bit 8 (of_char x :: nat) = of_char x" for x
    by (simp add: take_bit_eq_mod)
  have "take_bit 8 (of_char c XOR of_char k :: nat) = of_char c XOR of_char k"
    by (simp only: take_bit_xor tb)
  then have "(of_char c XOR of_char k :: nat) mod 256 = of_char c XOR of_char k"
    by (simp add: take_bit_eq_mod)
  then show ?thesis
    by (simp add: xor_char_def xor.assoc)
qed

lemma enumerate_gcm_body:
  "map (\<lambda>(i, c). xor_char c (ks i)) (enumerate n (map (\<lambda>(i, c). xor_char c (ks i)) (enumerate n xs)))
    = xs"
  by (induction xs arbitrary: n) (simp_all add: xor_char_involution)

lemma gcm_body_involution: "gcm_body P key iv (gcm_body P key iv input) = input"
  by (simp add: gcm_body_def enumerate_gcm_body)

lemma base64_encode_Nil_iff: "base64_encode bs = [] \<longleftrightarrow> bs = []"
  by (induction bs rule: base64_encode.induct) (simp_all add: Let_def)

lemma gcm_body_Nil_iff: "gcm_body P key iv input = [] \<longleftrightarrow> input = []"
  by (cases input) (simp_all add: gcm_body_def)

lemma decrypt_encrypt_nonempty:
  assumes "\<And>bs. base64_decode P (base64_encode bs) = bs"
    and "text \<noteq> []" and "iv \<noteq> []"
    and "gcm_auth_tag P (hmac_sha256 P (cfg_encryptionKey P) contextId) iv
           (gcm_body P (hmac_sha256 P (cfg_encryptionKey P) contextId) iv text) \<noteq> []"
  shows "decrypt P (encrypt P iv text contextId) contextId = Inr text"
  using assms
  by (simp add: decrypt_def encrypt_def Let_def split_on_append split_on_no_sep
      base64_encode_no_colon base64_encode_Nil_iff gcm_body_Nil_iff gcm_body_involution)

lemma decrypt_encrypt_other_context:
  assumes "\<And>bs. base64_decode P (base64_encode bs) = bs"
    and "text \<noteq> []" and "iv \<noteq> []"
    and "gcm_auth_tag P (hmac_sha256 P (cfg_encryptionKey P) contextId) iv
           (gcm_body P (hmac_sha256 P (cfg_encryptionKey P) contextId) iv text) \<noteq> []"
  shows "decrypt P (encrypt P iv text contextId) contextId' =
    (let key = hmac_sha256 P (cfg_encryptionKey P) contextId;
         key' = hmac_sha256 P (cfg_encryptionKey P) contextId';
         body = gcm_body P key iv text
     in if gcm_auth_tag P key' iv body = gcm_auth_tag P key iv body
        then Inr (gcm_body P key' iv body)
        else Inl Auth_failed)"
  using assms
  by (simp add: decrypt_def encrypt_def Let_def split_on_append split_on_no_sep
      base64_encode_no_colon base64_encode_Nil_iff gcm_body_Nil_iff)

section \<open>Delivery verifier: the verification record\<close>

lemma isDeliveryVerified_iff:
  "isDeliveryVerified d st \<longleftrightarrow> (\<exists>v. verificationStore st d = Some v \<and> v_isComplete v)"
  by (simp add: isDeliveryVerified_def split: option.splits)

lemma updateVerification_other:
  "d' \<noteq> d \<Longrightarrow> verificationStore (updateVerification d m now st) d' = verificationStore st d'"
  by (simp add: updateVerification_def Let_def split: option.splits)

lemma updateVerification_keeps_complete:
  "isDeliveryVerified d st \<Longrightarrow> isDeliveryVerified d (updateVerification d' m now st)"
  by (cases "d' = d")
    (auto simp add: isDeliveryVerified_def updateVerification_def Let_def split: option.splits)

lemma updateVerification_rule:
  assumes "m \<noteq> Code" and "all_records completion_rule st"
  shows "all_records completion_rule (updateVerification d m now st)"
  unfolding all_records_def
proof (intro allI impI)
  fix d' v'
  assume stored: "verificationStore (updateVerification d m now st) d' = Some v'"
  show "completion_rule v'"
  proof (cases "d' = d")
    case False
    with stored assms(2) show ?thesis
      by (simp add: updateVerification_other all_records_def)
  next
    case True
    show ?thesis
    proof (cases "verificationStore st d")
      case None
      with stored True show ?thesis by (simp add: updateVerification_def)
    next
      case (Some v)
      with assms(2) have "completion_rule v" by (simp add: all_records_def)
      with stored True Some assms(1) show ?thesis
        by (auto simp add: updateVerification_def Let_def completion_rule_def list_all_iff
            split: if_splits)
    qed
  qed
qed

lemma otpStore_updateVerification [simp]:
  "otpStore (updateVerification d m now st) = otpStore st"
  by (simp add: updateVerification_def Let_def split: option.splits)

lemma deliverySecrets_updateVerification [simp]:
  "deliverySecrets (updateVerification d m now st) = deliverySecrets st"
  by (simp add: updateVerification_def Let_def split: option.splits)

lemma verificationStore_generateOTP [simp]:
  "verificationStore (snd (generateOTP P newSecret newId iv now d r st)) = verificationStore st"
  by (simp add: generateOTP_def generateDeliverySecret_def Let_def split: option.splits)

lemma updateVerification_otpStore_upd [simp]:
  "verificationStore (updateVerification d m now (st\<lparr>otpStore := x\<rparr>))
     = verificationStore (updateVerification d m now st)"
  by (simp add: updateVerification_def Let_def split: option.splits)

lemma updateVerification_photoStore_upd [simp]:
  "verificationStore (updateVerification d m now (st\<lparr>photoStore := x\<rparr>))
     = verificationStore (updateVerification d m now st)"
  by (simp add: updateVerification_def Let_def split: option.splits)

lemma updateVerification_signatureStore_upd [simp]:
  "verificationStore (updateVerification d m now (st\<lparr>signatureStore := x\<rparr>))
     = verificationStore (updateVerification d m now st)"
  by (simp add: updateVerification_def Let_def split: option.splits)

lemma verifyOTP_verificationStore:
  "verificationStore (snd (verifyOTP P now d token st)) = verificationStore st
   \<or> verificationStore (snd (verifyOTP P now d token st))
       = verificationStore (updateVerification d Otp now st)"
  by (simp add: verifyOTP_def Let_def split: option.splits prod.splits)

lemma isDeliveryVerified_cong:
  "verificationStore st1 = verificationStore st \<Longrightarrow> isDeliveryVerified d st1 = isDeliveryVerified d st"
  by (simp add: isDeliveryVerified_def)

lemma all_records_cong:
  "verificationStore st1 = verificationStore st \<Longrightarrow> all_records Q st1 = all_records Q st"
  by (simp add: all_records_def)

text \<open>
  What a call does to \<open>verificationStore\<close>: nothing, one \<open>updateVerification\<close> with a method
  other than \<open>Code\<close>, a fresh record, or the fallback's overwrite.
\<close>

lemma verifier_step_verificationStore:
  "verificationStore (verifier_step P c st) = verificationStore st
   \<or> (\<exists>d m now. m \<noteq> Code
         \<and> verificationStore (verifier_step P c st) = verificationStore (updateVerification d m now st))
   \<or> (\<exists>newId d req. c = InitializeVerification newId d req
         \<and> verificationStore (verifier_step P c st)
             = (verificationStore st)(d \<mapsto> \<lparr>v_id = newId, v_deliveryId = d,
                  v_methodsRequired = req, v_methodsCompleted = [], v_isComplete = False,
                  v_completedAt = None\<rparr>))
   \<or> (\<exists>now d v. verificationStore st d = Some v
         \<and> verificationStore (verifier_step P c st)
             = (verificationStore st)(d \<mapsto> v\<lparr>v_isComplete := True, v_completedAt := Some now,
                  v_methodsCompleted := [Code]\<rparr>))"
proof (cases c)
  case (GenerateOTP newSecret newId iv now d r)
  then show ?thesis by simp
next
  case (VerifyOTP now d token)
  have "Otp \<noteq> Code" by simp
  with verifyOTP_verificationStore [of P now d token st] VerifyOTP show ?thesis
    by (metis verifier_step.simps(2))
next
  case (StoreDeliveryPhoto newId iv now d photoData metadata location)
  have "Photo \<noteq> Code" by simp
  moreover have "verificationStore (verifier_step P c st)
      = verificationStore (updateVerification d Photo now st)"
    using StoreDeliveryPhoto by (simp add: storeDeliveryPhoto_def Let_def)
  ultimately show ?thesis by blast
next
  case (StoreSignature newId iv iv2 now d signatureData signerName)
  have "Signature \<noteq> Code" by simp
  moreover have "verificationStore (verifier_step P c st)
      = verificationStore (updateVerification d Signature now st)"
    using StoreSignature by (simp add: storeSignature_def Let_def)
  ultimately show ?thesis by blast
next
  case (VerifyGeofence now d driverLocation deliveryLocation radius)
  have "Geofence \<noteq> Code" by simp
  moreover have "verificationStore (verifier_step P c st) = verificationStore st
      \<or> verificationStore (verifier_step P c st)
          = verificationStore (updateVerification d Geofence now st)"
    using VerifyGeofence by (simp add: verifyGeofence_def Let_def)
  ultimately show ?thesis by blast
next
  case (InitializeVerification newId d requiredMethods)
  then show ?thesis by (simp add: initializeVerification_def Let_def)
next
  case (CreateFallbackVerification now d code)
  show ?thesis
  proof (cases "toUpperCase code = expectedFallbackCode P d")
    case False
    with CreateFallbackVerification show ?thesis
      by (simp add: createFallbackVerification_def Let_def)
  next
    case True
    show ?thesis
    proof (cases "verificationStore st d")
      case None
      with True CreateFallbackVerification show ?thesis
        by (simp add: createFallbackVerification_def Let_def)
    next
      case (Some v)
      with True CreateFallbackVerification
      have "verificationStore (verifier_step P c st)
             = (verificationStore st)(d \<mapsto> v\<lparr>v_isComplete := True, v_completedAt := Some now,
                  v_methodsCompleted := [Code]\<rparr>)"
        by (simp add: createFallbackVerification_def Let_def)
      with Some show ?thesis by blast
    qed
  qed
qed

lemma step_keeps_complete:
  assumes "\<not> initializes d c" and "isDeliveryVerified d st"
  shows "isDeliveryVerified d (verifier_step P c st)"
proof -
  from verifier_step_verificationStore [of P c st]
  consider (same) "verificationStore (verifier_step P c st) = verificationStore st"
    | (upd) d' m now where
        "verificationStore (verifier_step P c st) = verificationStore (updateVerification d' m now st)"
    | (init) newId d' req where "c = InitializeVerification newId d' req"
        "verificationStore (verifier_step P c st)
           = (verificationStore st)(d' \<mapsto> \<lparr>v_id = newId, v_deliveryId = d',
                v_methodsRequired = req, v_methodsCompleted = [], v_isComplete = False,
                v_completedAt = None\<rparr>)"
    | (fallback) now d' v where "verificationStore st d' = Some v"
        "verificationStore (verifier_step P c st)
           = (verificationStore st)(d' \<mapsto> v\<lparr>v_isComplete := True, v_completedAt := Some now,
                v_methodsCompleted := [Code]\<rparr>)"
    by (elim disjE exE conjE)
  then show ?thesis
  proof cases
    case same
    from isDeliveryVerified_cong [OF same] assms(2) show ?thesis by simp
  next
    case upd
    from isDeliveryVerified_cong [OF upd]
      updateVerification_keeps_complete [OF assms(2), of d' m now]
    show ?thesis by simp
  next
    case init
    with assms(1) have "d' \<noteq> d" by simp
    with init(2) assms(2) show ?thesis by (simp add: isDeliveryVerified_def)
  next
    case fallback
    with assms(2) show ?thesis by (simp add: isDeliveryVerified_def)
  qed
qed

lemma step_keeps_rule:
  assumes "all_records completion_rule st"
  shows "all_records completion_rule (verifier_step P c st)"
proof -
  from verifier_step_verificationStore [of P c st]
  consider (same) "verificationStore (verifier_step P c st) = verificationStore st"
    | (upd) d' m now where "m \<noteq> Code"
        "verificationStore (verifier_step P c st) = verificationStore (updateVerification d' m now st)"
    | (init) newId d' req where
        "verificationStore (verifier_step P c st)
           = (verificationStore st)(d' \<mapsto> \<lparr>v_id = newId, v_deliveryId = d',
                v_methodsRequired = req, v_methodsCompleted = [], v_isComplete = False,
                v_completedAt = None\<rparr>)"
    | (fallback) now d' v where "verificationStore st d' = Some v"
        "verificationStore (verifier_step P c st)
           = (verificationStore st)(d' \<mapsto> v\<lparr>v_isComplete := True, v_completedAt := Some now,
                v_methodsCompleted := [Code]\<rparr>)"
    by (elim disjE exE conjE)
  then show ?thesis
  proof cases
    case same
    from all_records_cong [OF same] assms show ?thesis by simp
  next
    case upd
    from all_records_cong [OF upd(2)] updateVerification_rule [OF upd(1) assms, of d' now]
    show ?thesis by simp
  next
    case init
    with assms show ?thesis by (simp add: all_records_def completion_rule_def)
  next
    case fallback
    with assms show ?thesis by (simp add: all_records_def completion_rule_def)
  qed
qed

lemma run_keeps_rule:
  "all_records completion_rule st \<Longrightarrow> all_records completion_rule (verifier_run P cs st)"
  by (induction cs arbitrary: st) (simp_all add: step_keeps_rule)

lemma run_keeps_complete:
  "\<forall>c \<in> set cs. \<not> initializes d c \<Longrightarrow> isDeliveryVerified d st
    \<Longrightarrow> isDeliveryVerified d (verifier_run P cs st)"
  by (induction cs arbitrary: st) (simp_all add: step_keeps_complete)

section \<open>Delivery verifier: one-time passwords\<close>




lemma filter_replace_first:
  "\<not> p y \<Longrightarrow> filter p (replace_first p y xs) = tl (filter p xs)"
  by (induction xs) auto

lemma find_filter_Nil: "filter p xs = [] \<Longrightarrow> find p xs = None"
  by (induction xs) (auto split: if_splits)

lemma find_filter: "find p xs = (case filter p xs of [] \<Rightarrow> None | x # rest \<Rightarrow> Some x)"
  by (induction xs) auto

lemma find_pending: "find (pendingOTP d) xs = Some (k, r) \<Longrightarrow> otp_deliveryId r = d \<and> \<not> otp_isVerified r"
  by (induction xs) (auto simp add: pendingOTP_def split: if_splits)


lemma find_list_all: "find p xs = Some x \<Longrightarrow> list_all Q xs \<Longrightarrow> Q x"
  by (induction xs) (auto split: if_splits)

lemma verifyOTP_wrong:
  assumes "deliverySecrets st d = Some secret" and "secret \<noteq> []"
    and "find (pendingOTP d) (otpStore st) = Some (k, r)"
    and "now \<le> otp_expiresAt r" and "otp_attemptCount r < 5"
    and "\<not> totp_verify P token secret now"
  shows "verifyOTP P now d token st =
          (invalid_otp_result (4 - int (otp_attemptCount r)),
           st\<lparr>otpStore := replace_first (pendingOTP d)
                  (k, r\<lparr>otp_attemptCount := otp_attemptCount r + 1\<rparr>) (otpStore st)\<rparr>)"
  using assms by (simp add: verifyOTP_def Let_def invalid_otp_result_def)

lemma verifyOTP_right:
  assumes "deliverySecrets st d = Some secret" and "secret \<noteq> []"
    and "find (pendingOTP d) (otpStore st) = Some (k, r)"
    and "now \<le> otp_expiresAt r" and "otp_attemptCount r < 5"
    and "totp_verify P token secret now"
  shows "verifyOTP P now d token st =
          (\<lparr>isValid = True, reason = None, remainingAttempts = None\<rparr>,
           updateVerification d Otp now
             (st\<lparr>otpStore := replace_first (pendingOTP d)
                  (k, r\<lparr>otp_attemptCount := otp_attemptCount r + 1, otp_isVerified := True,
                        otp_verifiedAt := Some now\<rparr>) (otpStore st)\<rparr>))"
  using assms by (simp add: verifyOTP_def Let_def)



lemma verifyOTP_no_pending:
  assumes "deliverySecrets st d = Some secret" and "secret \<noteq> []"
    and "find (pendingOTP d) (otpStore st) = None"
  shows "verifyOTP P now d token st =
          (\<lparr>isValid = False, reason = Some ''no_pending_otp'', remainingAttempts = None\<rparr>, st)"
  using assms by (simp add: verifyOTP_def)

lemma verifyOTP_result:
  assumes "deliverySecrets st d = Some secret" and "secret \<noteq> []"
  shows "fst (verifyOTP P now d token st) =
    (case filter (pendingOTP d) (otpStore st) of
       [] \<Rightarrow> no_pending_result
     | entry # rest \<Rightarrow>
         if otp_expiresAt (snd entry) < now then otp_expired_result
         else if 5 \<le> otp_attemptCount (snd entry) then max_attempts_result
         else if totp_verify P token secret now then valid_otp_result
         else invalid_otp_result (4 - int (otp_attemptCount (snd entry))))"
  using assms
  by (simp add: verifyOTP_def find_filter Let_def no_pending_result_def otp_expired_result_def
      max_attempts_result_def valid_otp_result_def invalid_otp_result_def
      split: list.splits prod.splits)




section \<open>Delivery verifier: scenarios evaluated\<close>

lemma scenario_platform_sel [simp]:
  "cfg_otpTtlSeconds scenario_platform = 300"
  "totp_generate scenario_platform = (\<lambda>secret now. ''123456'')"
  "totp_verify scenario_platform = (\<lambda>token secret now. token = ''123456'')"
  "calculateDistance scenario_platform = (\<lambda>a b. 16)"
  "cfg_hmacSecret scenario_platform = ''fedcba9876543210fedcba9876543210''"
  "hmac_sha256 scenario_platform = (\<lambda>key input. take 32 (input @ key))"
  by (simp_all add: scenario_platform_def)

lemma otp_scenario_eval:
  "otp_scenario =
    \<lparr>otpStore = [(''O1'', otp_scenario_record)], photoStore = Map.empty,
     signatureStore = Map.empty,
     verificationStore = [''D2'' \<mapsto> \<lparr>v_id = ''V2'', v_deliveryId = ''D2'',
        v_methodsRequired = [Otp], v_methodsCompleted = [], v_isComplete = False,
        v_completedAt = None\<rparr>],
     deliverySecrets = [''D2'' \<mapsto> ''JBSWY3DPEHPK3PXP'']\<rparr>"
  by (simp add: otp_scenario_def otp_scenario_record_def verifier_init_def
      initializeVerification_def generateOTP_def generateDeliverySecret_def Let_def)

lemma otp_scenario_found:
  "find (pendingOTP ''D2'') (otpStore otp_scenario) = Some (''O1'', otp_scenario_record)"
  by (simp add: otp_scenario_eval pendingOTP_def otp_scenario_record_def)

lemma otp_scenario_only:
  "filter (pendingOTP ''D2'') (otpStore otp_scenario) = [(''O1'', otp_scenario_record)]"
  by (simp add: otp_scenario_eval pendingOTP_def otp_scenario_record_def)

lemma otp_scenario_secret: "deliverySecrets otp_scenario ''D2'' = Some ''JBSWY3DPEHPK3PXP''"
  by (simp add: otp_scenario_eval)

lemma otp_twice_scenario_eval:
  "otp_twice_scenario =
    \<lparr>otpStore = [(''O1'', otp_scenario_record), (''O2'', otp_second_record)],
     photoStore = Map.empty, signatureStore = Map.empty,
     verificationStore = [''D2'' \<mapsto> \<lparr>v_id = ''V2'', v_deliveryId = ''D2'',
        v_methodsRequired = [Otp], v_methodsCompleted = [], v_isComplete = False,
        v_completedAt = None\<rparr>],
     deliverySecrets = [''D2'' \<mapsto> ''JBSWY3DPEHPK3PXP'']\<rparr>"
  by (simp add: otp_twice_scenario_def otp_scenario_record_def otp_second_record_def
      verifier_init_def initializeVerification_def generateOTP_def generateDeliverySecret_def
      Let_def)

lemma otp_twice_scenario_found:
  "find (pendingOTP ''D2'') (otpStore otp_twice_scenario) = Some (''O1'', otp_scenario_record)"
  by (simp add: otp_twice_scenario_eval pendingOTP_def otp_scenario_record_def)

lemma otp_twice_scenario_pending:
  "filter (pendingOTP ''D2'') (otpStore otp_twice_scenario)
     = [(''O1'', otp_scenario_record), (''O2'', otp_second_record)]"
  by (simp add: otp_twice_scenario_eval pendingOTP_def otp_scenario_record_def
      otp_second_record_def)

lemma otp_twice_scenario_secret:
  "deliverySecrets otp_twice_scenario ''D2'' = Some ''JBSWY3DPEHPK3PXP''"
  by (simp add: otp_twice_scenario_eval)

lemma photo_scenario_complete:
  "isDeliveryVerified ''D1'' (verifier_run scenario_platform photo_scenario verifier_init)"
  by (simp add: photo_scenario_def verifier_init_def initializeVerification_def
      storeDeliveryPhoto_def updateVerification_def isDeliveryVerified_def Let_def)

section \<open>Delivery verifier: the claims\<close>





lemma all_records_init: "all_records Q verifier_init"
  by (simp add: all_records_def verifier_init_def)

lemma createFallbackVerification_expected:
  "verificationStore st d = Some v \<Longrightarrow>
   createFallbackVerification P now d (expectedFallbackCode P d) st =
     (True, st\<lparr>verificationStore := (verificationStore st)
        (d \<mapsto> v\<lparr>v_isComplete := True, v_completedAt := Some now, v_methodsCompleted := [Code]\<rparr>)\<rparr>)"
  by (simp add: createFallbackVerification_def Let_def expectedFallbackCode_def toUpperCase_def
      to_upper_idem)

text \<open>
  Against C2 as stated, in two states. In \<open>otp_scenario\<close> the OTP of delivery D2 is verified
  with the token 123456 and the same token is sent again: the first call succeeds, the replay
  does not reach the consumed record (the lookup skips verified records) and answers
  \<^verbatim>\<open>no_pending_otp\<close>, not \<^verbatim>\<open>invalid_otp\<close>. In \<open>otp_twice_scenario\<close>, where a second OTP was
  generated for D2, the same two calls both succeed: the replay is compared with the
  delivery's secret on behalf of the second pending record.
\<close>

theorem verifyOTP_replay_counterexample:
  "fst (verifyOTP scenario_platform 2000 ''D2'' ''123456'' otp_scenario)
     = \<lparr>isValid = True, reason = None, remainingAttempts = None\<rparr>
   \<and> fst (verifyOTP scenario_platform 3000 ''D2'' ''123456''
           (snd (verifyOTP scenario_platform 2000 ''D2'' ''123456'' otp_scenario)))
     = \<lparr>isValid = False, reason = Some ''no_pending_otp'', remainingAttempts = None\<rparr>
   \<and> reason (fst (verifyOTP scenario_platform 3000 ''D2'' ''123456''
           (snd (verifyOTP scenario_platform 2000 ''D2'' ''123456'' otp_scenario))))
     \<noteq> Some ''invalid_otp''
   \<and> fst (verifyOTP scenario_platform 2000 ''D2'' ''123456'' otp_twice_scenario)
     = \<lparr>isValid = True, reason = None, remainingAttempts = None\<rparr>
   \<and> fst (verifyOTP scenario_platform 3000 ''D2'' ''123456''
           (snd (verifyOTP scenario_platform 2000 ''D2'' ''123456'' otp_twice_scenario)))
     = \<lparr>isValid = True, reason = None, remainingAttempts = None\<rparr>"
  by (simp add: verifyOTP_def otp_scenario_eval otp_twice_scenario_eval otp_scenario_record_def
      otp_second_record_def pendingOTP_def Let_def updateVerification_def)

text \<open>
  C2, amended. Every \<open>verifyOTP\<close> call that reaches the token comparison (a secret exists, a
  pending record is found, it has not expired and has fewer than 5 attempts) increments
  \<open>attemptCount\<close> of that record, on the successful call as well; the call is valid exactly when
  the token verifies, and then the record is marked verified. After a successful call the
  pending records of the delivery are those that followed the consumed one, so a later call,
  with the same token or any other, never meets the consumed record. When no pending record is
  left it answers \<^verbatim>\<open>no_pending_otp\<close> and changes nothing. When one is left (an OTP generated
  again for the delivery), the call is judged on the first of them as any call is:
  \<^verbatim>\<open>otp_expired\<close> past its expiry, \<^verbatim>\<open>max_attempts_exceeded\<close> at 5 attempts, and otherwise by the
  comparison of the token with the delivery's secret at the time of the call, so that a
  replayed token that still verifies is accepted, and one that does not is answered
  \<^verbatim>\<open>invalid_otp\<close> with the attempts remaining on that record.
\<close>

theorem verifyOTP_counts_every_comparison:
  assumes "deliverySecrets st d = Some secret" and "secret \<noteq> []"
    and "find (pendingOTP d) (otpStore st) = Some (k, r)"
    and "now \<le> otp_expiresAt r" and "otp_attemptCount r < 5"
  shows "isValid (fst (verifyOTP P now d token st)) = totp_verify P token secret now
    \<and> (\<exists>r'. otpStore (snd (verifyOTP P now d token st))
               = replace_first (pendingOTP d) (k, r') (otpStore st)
            \<and> otp_attemptCount r' = otp_attemptCount r + 1
            \<and> otp_isVerified r' = totp_verify P token secret now)
    \<and> (totp_verify P token secret now \<longrightarrow>
         filter (pendingOTP d) (otpStore (snd (verifyOTP P now d token st)))
           = tl (filter (pendingOTP d) (otpStore st))
         \<and> (case tl (filter (pendingOTP d) (otpStore st)) of
               [] \<Rightarrow>
                 verifyOTP P now' d token' (snd (verifyOTP P now d token st))
                   = (no_pending_result, snd (verifyOTP P now d token st))
             | next_entry # rest \<Rightarrow>
                 fst (verifyOTP P now' d token' (snd (verifyOTP P now d token st))) =
                   (if otp_expiresAt (snd next_entry) < now' then otp_expired_result
                    else if 5 \<le> otp_attemptCount (snd next_entry) then max_attempts_result
                    else if totp_verify P token' secret now' then valid_otp_result
                    else invalid_otp_result (4 - int (otp_attemptCount (snd next_entry))))))"
proof (cases "totp_verify P token secret now")
  case False
  let ?r' = "r\<lparr>otp_attemptCount := otp_attemptCount r + 1\<rparr>"
  have "otpStore (snd (verifyOTP P now d token st))
          = replace_first (pendingOTP d) (k, ?r') (otpStore st)
      \<and> otp_attemptCount ?r' = otp_attemptCount r + 1 \<and> otp_isVerified ?r' = False"
    using verifyOTP_wrong [OF assms False] find_pending [OF assms(3)] by simp
  then have "\<exists>r'. otpStore (snd (verifyOTP P now d token st))
          = replace_first (pendingOTP d) (k, r') (otpStore st)
      \<and> otp_attemptCount r' = otp_attemptCount r + 1 \<and> otp_isVerified r' = False"
    by (rule exI)
  with verifyOTP_wrong [OF assms False] False show ?thesis
    by (simp add: invalid_otp_result_def)
next
  case True
  let ?r' = "r\<lparr>otp_attemptCount := otp_attemptCount r + 1, otp_isVerified := True,
                otp_verifiedAt := Some now\<rparr>"
  let ?st1 = "st\<lparr>otpStore := replace_first (pendingOTP d) (k, ?r') (otpStore st)\<rparr>"
  let ?st' = "updateVerification d Otp now ?st1"
  let ?left = "tl (filter (pendingOTP d) (otpStore st))"
  have call: "verifyOTP P now d token st =
      (\<lparr>isValid = True, reason = None, remainingAttempts = None\<rparr>, ?st')"
    by (rule verifyOTP_right [OF assms True])
  have not_pending: "\<not> pendingOTP d (k, ?r')" by (simp add: pendingOTP_def)
  have "filter (pendingOTP d) (replace_first (pendingOTP d) (k, ?r') (otpStore st)) = ?left"
    using not_pending by (rule filter_replace_first)
  then have left: "filter (pendingOTP d) (otpStore ?st') = ?left" by simp
  have secret': "deliverySecrets ?st' d = Some secret" using assms(1) by simp
  have none: "verifyOTP P now' d token' ?st' = (no_pending_result, ?st')" if "?left = []"
  proof -
    from that left have "find (pendingOTP d) (otpStore ?st') = None"
      by (simp add: find_filter_Nil)
    from verifyOTP_no_pending [OF secret' assms(2) this] show ?thesis
      by (simp add: no_pending_result_def)
  qed
  have some: "fst (verifyOTP P now' d token' ?st') =
      (if otp_expiresAt (snd next_entry) < now' then otp_expired_result
       else if 5 \<le> otp_attemptCount (snd next_entry) then max_attempts_result
       else if totp_verify P token' secret now' then valid_otp_result
       else invalid_otp_result (4 - int (otp_attemptCount (snd next_entry))))"
    if "?left = next_entry # rest" for next_entry rest
    using verifyOTP_result [OF secret' assms(2), of P now' token'] that
    by (simp only: left list.case)
  have replay: "case ?left of
        [] \<Rightarrow> verifyOTP P now' d token' ?st' = (no_pending_result, ?st')
      | next_entry # rest \<Rightarrow>
          fst (verifyOTP P now' d token' ?st') =
            (if otp_expiresAt (snd next_entry) < now' then otp_expired_result
             else if 5 \<le> otp_attemptCount (snd next_entry) then max_attempts_result
             else if totp_verify P token' secret now' then valid_otp_result
             else invalid_otp_result (4 - int (otp_attemptCount (snd next_entry))))"
    using none some by (cases ?left) simp_all
  have "otpStore ?st' = replace_first (pendingOTP d) (k, ?r') (otpStore st)
      \<and> otp_attemptCount ?r' = otp_attemptCount r + 1 \<and> otp_isVerified ?r' = True"
    by simp
  then have "\<exists>r'. otpStore ?st' = replace_first (pendingOTP d) (k, r') (otpStore st)
      \<and> otp_attemptCount r' = otp_attemptCount r + 1 \<and> otp_isVerified r' = True"
    by (rule exI)
  then have store: "\<exists>r'. otpStore (snd (verifyOTP P now d token st))
        = replace_first (pendingOTP d) (k, r') (otpStore st)
      \<and> otp_attemptCount r' = otp_attemptCount r + 1
      \<and> otp_isVerified r' = totp_verify P token secret now"
    unfolding call snd_conv using True by simp
  have valid: "isValid (fst (verifyOTP P now d token st)) = totp_verify P token secret now"
    using True by (simp add: call)
  from valid store left replay show ?thesis
    unfolding call snd_conv by (intro conjI impI)
qed

theorem verifyOTP_counts_every_comparison_witness:
  "deliverySecrets otp_twice_scenario ''D2'' = Some ''JBSWY3DPEHPK3PXP''
   \<and> ''JBSWY3DPEHPK3PXP'' \<noteq> []
   \<and> find (pendingOTP ''D2'') (otpStore otp_twice_scenario) = Some (''O1'', otp_scenario_record)
   \<and> (2000::nat) \<le> otp_expiresAt otp_scenario_record
   \<and> otp_attemptCount otp_scenario_record < 5
   \<and> isValid (fst (verifyOTP scenario_platform 2000 ''D2'' ''123456'' otp_twice_scenario))
   \<and> (\<exists>r'. otpStore (snd (verifyOTP scenario_platform 2000 ''D2'' ''123456'' otp_twice_scenario))
               = replace_first (pendingOTP ''D2'') (''O1'', r') (otpStore otp_twice_scenario)
            \<and> otp_attemptCount r' = 1 \<and> otp_isVerified r')
   \<and> filter (pendingOTP ''D2'')
         (otpStore (snd (verifyOTP scenario_platform 2000 ''D2'' ''123456'' otp_twice_scenario)))
       = [(''O2'', otp_second_record)]
   \<and> fst (verifyOTP scenario_platform 3000 ''D2'' ''123456''
         (snd (verifyOTP scenario_platform 2000 ''D2'' ''123456'' otp_twice_scenario)))
       = valid_otp_result
   \<and> fst (verifyOTP scenario_platform 3000 ''D2'' ''654321''
         (snd (verifyOTP scenario_platform 2000 ''D2'' ''123456'' otp_twice_scenario)))
       = invalid_otp_result 4
   \<and> verifyOTP scenario_platform 3000 ''D2'' ''123456''
         (snd (verifyOTP scenario_platform 2000 ''D2'' ''123456'' otp_scenario))
       = (no_pending_result, snd (verifyOTP scenario_platform 2000 ''D2'' ''123456'' otp_scenario))"
proof -
  have h2: "''JBSWY3DPEHPK3PXP'' \<noteq> []" by simp
  have h4: "(2000::nat) \<le> otp_expiresAt otp_scenario_record"
    by (simp add: otp_scenario_record_def)
  have h5: "otp_attemptCount otp_scenario_record < 5"
    by (simp add: otp_scenario_record_def)
  have second: "otp_expiresAt otp_second_record = 301500"
    "otp_attemptCount otp_second_record = 0"
    by (simp_all add: otp_second_record_def)
  from verifyOTP_counts_every_comparison
    [OF otp_twice_scenario_secret h2 otp_twice_scenario_found h4 h5,
      of scenario_platform "''123456''" 3000 "''123456''"]
    verifyOTP_counts_every_comparison
    [OF otp_twice_scenario_secret h2 otp_twice_scenario_found h4 h5,
      of scenario_platform "''123456''" 3000 "''654321''"]
    verifyOTP_counts_every_comparison
    [OF otp_scenario_secret h2 otp_scenario_found h4 h5,
      of scenario_platform "''123456''" 3000 "''123456''"]
    otp_twice_scenario_secret otp_twice_scenario_found h4 h5
  show ?thesis
    by (simp add: otp_twice_scenario_pending otp_scenario_only second
        otp_scenario_record_def)
qed

text \<open>
  Against C4 as stated: delivery D1 requires the photo, the photo is stored and the record is
  complete; \<open>initializeVerification\<close> for D1 then replaces the record by a fresh one that is not
  complete.
\<close>

theorem initializeVerification_resets_counterexample:
  "isDeliveryVerified ''D1'' (verifier_run scenario_platform photo_scenario verifier_init)
   \<and> \<not> isDeliveryVerified ''D1''
        (verifier_run scenario_platform
          (photo_scenario @ [InitializeVerification ''V8'' ''D1'' [Photo]]) verifier_init)"
  by (simp add: photo_scenario_def verifier_init_def initializeVerification_def
      storeDeliveryPhoto_def updateVerification_def isDeliveryVerified_def Let_def)

text \<open>
  C4, amended. Once the verification record of a delivery is complete, it stays complete
  under every sequence of \<open>generateOTP\<close>, \<open>verifyOTP\<close>, \<open>storeDeliveryPhoto\<close>, \<open>storeSignature\<close>,
  \<open>verifyGeofence\<close> and \<open>createFallbackVerification\<close> calls, and of \<open>initializeVerification\<close>
  calls for other deliveries. \<open>initializeVerification\<close> for the delivery itself always leaves
  a record that is not complete.
\<close>

theorem completeness_kept_without_reinitialisation:
  assumes "isDeliveryVerified d st" and "list_all (\<lambda>c. \<not> initializes d c) cs"
  shows "isDeliveryVerified d (verifier_run P cs st)
         \<and> \<not> isDeliveryVerified d (snd (initializeVerification newId d requiredMethods st'))"
proof -
  from assms(2) have "\<forall>c \<in> set cs. \<not> initializes d c" by (simp add: list_all_iff)
  from run_keeps_complete [OF this assms(1)] show ?thesis
    by (simp add: initializeVerification_def isDeliveryVerified_def Let_def)
qed

theorem completeness_kept_without_reinitialisation_witness:
  "isDeliveryVerified ''D1'' (verifier_run scenario_platform photo_scenario verifier_init)
   \<and> list_all (\<lambda>c. \<not> initializes ''D1'' c)
        [VerifyOTP 3000 ''D1'' ''000000'',
         VerifyGeofence 4000 ''D1'' nairobi nairobi None,
         InitializeVerification ''V7'' ''D7'' [Otp],
         CreateFallbackVerification 5000 ''D1'' ''ZZZZZZZZ'']
   \<and> isDeliveryVerified ''D1''
        (verifier_run scenario_platform
          [VerifyOTP 3000 ''D1'' ''000000'',
           VerifyGeofence 4000 ''D1'' nairobi nairobi None,
           InitializeVerification ''V7'' ''D7'' [Otp],
           CreateFallbackVerification 5000 ''D1'' ''ZZZZZZZZ'']
          (verifier_run scenario_platform photo_scenario verifier_init))
   \<and> \<not> isDeliveryVerified ''D1''
        (snd (initializeVerification ''V8'' ''D1'' [Photo]
          (verifier_run scenario_platform photo_scenario verifier_init)))"
proof -
  have h2: "list_all (\<lambda>c. \<not> initializes ''D1'' c)
        [VerifyOTP 3000 ''D1'' ''000000'',
         VerifyGeofence 4000 ''D1'' nairobi nairobi None,
         InitializeVerification ''V7'' ''D7'' [Otp],
         CreateFallbackVerification 5000 ''D1'' ''ZZZZZZZZ'']"
    by simp
  from completeness_kept_without_reinitialisation [OF photo_scenario_complete h2,
      of scenario_platform "''V8''" "[Photo]"
         "verifier_run scenario_platform photo_scenario verifier_init"]
    photo_scenario_complete h2
  show ?thesis by simp
qed

text \<open>
  Against C5 as stated: delivery D4 requires the OTP; after a successful fallback the record is
  complete with completed methods \<^verbatim>\<open>[code]\<close>, and the required method is not among them.
\<close>

theorem fallback_breaks_subset_rule_counterexample:
  "getVerificationStatus ''D4'' (verifier_run scenario_platform fallback_scenario verifier_init)
     = Some \<lparr>v_id = ''V4'', v_deliveryId = ''D4'', v_methodsRequired = [Otp],
             v_methodsCompleted = [Code], v_isComplete = True, v_completedAt = Some 5000\<rparr>
   \<and> \<not> set [Otp] \<subseteq> set [Code]"
  by (simp add: fallback_scenario_def verifier_init_def initializeVerification_def
      createFallbackVerification_def expectedFallbackCode_def hmacSha256_def hex_encode_def
      hex_digit_def toUpperCase_def to_upper_def getVerificationStatus_def Let_def)

text \<open>
  C5, amended. After any sequence of public operations from the empty stores, a verification
  record is complete exactly when \<open>Code\<close> is among its completed methods (a fallback succeeded
  since it was initialised) or at least one method has completed and every required method
  is among the completed ones. A successful fallback on an initialised delivery sets
  \<open>isComplete\<close>, stamps the time and sets the completed methods to \<^verbatim>\<open>[code]\<close>, whatever the
  required methods are.
\<close>

theorem completion_rule_reachable:
  "(case verificationStore (verifier_run P cs verifier_init) d of
      None \<Rightarrow> True
    | Some v \<Rightarrow> completion_rule v)
   \<and> (case verificationStore st d' of
        None \<Rightarrow> True
      | Some v \<Rightarrow>
          createFallbackVerification P now d' (expectedFallbackCode P d') st =
            (True, st\<lparr>verificationStore := (verificationStore st)
               (d' \<mapsto> v\<lparr>v_isComplete := True, v_completedAt := Some now,
                          v_methodsCompleted := [Code]\<rparr>)\<rparr>))"
proof -
  have "all_records completion_rule (verifier_run P cs verifier_init)"
    by (rule run_keeps_rule [OF all_records_init])
  then have "case verificationStore (verifier_run P cs verifier_init) d of
      None \<Rightarrow> True | Some v \<Rightarrow> completion_rule v"
    by (simp add: all_records_def split: option.splits)
  then show ?thesis
    by (simp add: createFallbackVerification_expected split: option.splits)
qed

theorem completion_rule_reachable_witness:
  "completion_rule \<lparr>v_id = ''V4'', v_deliveryId = ''D4'', v_methodsRequired = [Otp],
             v_methodsCompleted = [Code], v_isComplete = True, v_completedAt = Some 5000\<rparr>
   \<and> createFallbackVerification scenario_platform 6000 ''D2''
        (expectedFallbackCode scenario_platform ''D2'') otp_scenario
      = (True, otp_scenario\<lparr>verificationStore := (verificationStore otp_scenario)
           (''D2'' \<mapsto> \<lparr>v_id = ''V2'', v_deliveryId = ''D2'', v_methodsRequired = [Otp],
               v_methodsCompleted = [Code], v_isComplete = True, v_completedAt = Some 6000\<rparr>)\<rparr>)"
proof -
  have stored: "verificationStore (verifier_run scenario_platform fallback_scenario verifier_init) ''D4''
      = Some \<lparr>v_id = ''V4'', v_deliveryId = ''D4'', v_methodsRequired = [Otp],
             v_methodsCompleted = [Code], v_isComplete = True, v_completedAt = Some 5000\<rparr>"
    by (simp add: fallback_scenario_def verifier_init_def initializeVerification_def
      createFallbackVerification_def expectedFallbackCode_def hmacSha256_def hex_encode_def
      hex_digit_def toUpperCase_def to_upper_def Let_def)
  have stored2: "verificationStore otp_scenario ''D2''
      = Some \<lparr>v_id = ''V2'', v_deliveryId = ''D2'', v_methodsRequired = [Otp],
          v_methodsCompleted = [], v_isComplete = False, v_completedAt = None\<rparr>"
    by (simp add: otp_scenario_eval)
  from completion_rule_reachable
    [where P = scenario_platform and cs = fallback_scenario and d = "''D4''"
       and st = otp_scenario and d' = "''D2''" and now = 6000]
  show ?thesis by (simp add: stored stored2)
qed




section \<open>Notification dispatcher\<close>

lemma rate_limited_userPreferences [simp]:
  "rate_limited now r ch (st\<lparr>userPreferences := prefs\<rparr>) = rate_limited now r ch st"
  by (simp add: rate_limited_def)

lemma sendNotification_sent:
  assumes "\<not> rate_limited now r ch st"
  shows "\<exists>st'. sendNotification P newId iv now r ch t c pr st =
      (Inr \<lparr>n_id = newId, n_recipientId = r, n_channel = ch, n_priority = pr, n_templateId = t,
            n_contentEncrypted = encrypt P iv c r, n_scheduledAt = now, n_sentAt = Some now,
            n_deliveredAt = None, n_readAt = None, n_status = Sent, n_retryCount = 0,
            n_maxRetries = 5, n_failureReason = None\<rparr>, st')
     \<and> map_of (notificationStore st') newId =
         Some \<lparr>n_id = newId, n_recipientId = r, n_channel = ch, n_priority = pr, n_templateId = t,
            n_contentEncrypted = encrypt P iv c r, n_scheduledAt = now, n_sentAt = Some now,
            n_deliveredAt = None, n_readAt = None, n_status = Sent, n_retryCount = 0,
            n_maxRetries = 5, n_failureReason = None\<rparr>"
proof -
  have adapter: "channel_adapter ch = Inr ()" by (cases ch) simp_all
  show ?thesis
    using assms
    by (cases "rateLimitStore st (rateLimitKey r ch)")
      (simp_all add: sendNotification_def deliverNotification_def adapter Let_def
        RETRY_DELAYS_def AList.update_conv')
qed

lemma sendNotification_userPreferences:
  "sendNotification P newId iv now r ch t c pr (st\<lparr>userPreferences := prefs\<rparr>) =
    (fst (sendNotification P newId iv now r ch t c pr st),
     (snd (sendNotification P newId iv now r ch t c pr st))\<lparr>userPreferences := prefs\<rparr>)"
proof -
  have adapter: "channel_adapter ch = Inr ()" by (cases ch) simp_all
  show ?thesis
    by (cases "rateLimitStore st (rateLimitKey r ch)")
      (simp_all add: sendNotification_def deliverNotification_def adapter Let_def)
qed

text \<open>
  Against C8 as stated: U1 has chosen SMS only, and a send to U1 on the email channel with
  normal priority is not rejected: the record is stored and delivered (status \<^verbatim>\<open>sent\<close>).
\<close>

theorem sendNotification_unpreferred_channel_counterexample:
  "Email \<notin> set (pref_channels (getUserPreferences ''U1'' preference_scenario))
   \<and> Normal \<noteq> Critical
   \<and> fst (sendNotification scenario_platform ''N1'' ''0123456789ab'' 1000 ''U1'' Email ''welcome''
            ''hello'' Normal preference_scenario)
     = Inr \<lparr>n_id = ''N1'', n_recipientId = ''U1'', n_channel = Email, n_priority = Normal,
            n_templateId = ''welcome'',
            n_contentEncrypted = encrypt scenario_platform ''0123456789ab'' ''hello'' ''U1'',
            n_scheduledAt = 1000, n_sentAt = Some 1000, n_deliveredAt = None, n_readAt = None,
            n_status = Sent, n_retryCount = 0, n_maxRetries = 5, n_failureReason = None\<rparr>
   \<and> map (\<lambda>entry. (fst entry, n_channel (snd entry), n_status (snd entry)))
        (notificationStore (snd (sendNotification scenario_platform ''N1'' ''0123456789ab'' 1000
            ''U1'' Email ''welcome'' ''hello'' Normal preference_scenario)))
     = [(''N1'', Email, Sent)]"
  by (simp add: preference_scenario_def setUserPreferences_def getUserPreferences_def
      notifier_init_def sendNotification_def rate_limited_def deliverNotification_def
      RETRY_DELAYS_def Let_def)

text \<open>
  C8, amended. \<open>sendNotification\<close> does not consult the recipient's preferences: its result and
  the stored notifications are the same whatever the preferences are. The only rejection is
  the rate limit; every other send, on any channel and with any priority, stores a
  \<open>NotificationRecord\<close> and attempts delivery, and the record is returned with status \<^verbatim>\<open>sent\<close>.
\<close>

theorem sendNotification_ignores_preferences:
  "fst (sendNotification P newId iv now r ch t c pr (st\<lparr>userPreferences := prefs\<rparr>))
     = fst (sendNotification P newId iv now r ch t c pr st)
   \<and> notificationStore (snd (sendNotification P newId iv now r ch t c pr (st\<lparr>userPreferences := prefs\<rparr>)))
     = notificationStore (snd (sendNotification P newId iv now r ch t c pr st))
   \<and> (case fst (sendNotification P newId iv now r ch t c pr st) of
        Inl err \<Rightarrow> rate_limited now r ch st \<and> err = ''Rate limited''
                   \<and> snd (sendNotification P newId iv now r ch t c pr st) = st
      | Inr n \<Rightarrow> \<not> rate_limited now r ch st
                 \<and> n_channel n = ch \<and> n_priority n = pr \<and> n_status n = Sent
                 \<and> n_sentAt n = Some now
                 \<and> getNotification newId (snd (sendNotification P newId iv now r ch t c pr st))
                     = Some n)"
proof (cases "rate_limited now r ch st")
  case True
  then show ?thesis by (simp add: sendNotification_def sendNotification_userPreferences)
next
  case False
  from sendNotification_sent [OF False, of P newId iv t c pr] False
  show ?thesis by (auto simp add: getNotification_def sendNotification_userPreferences)
qed

theorem sendNotification_ignores_preferences_witness:
  "fst (sendNotification scenario_platform ''N1'' ''0123456789ab'' 1000 ''U1'' Email ''welcome''
          ''hello'' Normal (notifier_init\<lparr>userPreferences := [''U1'' \<mapsto> \<lparr>pref_channels = [Sms],
             pref_quiet = None\<rparr>]\<rparr>))
     = fst (sendNotification scenario_platform ''N1'' ''0123456789ab'' 1000 ''U1'' Email ''welcome''
          ''hello'' Normal notifier_init)
   \<and> \<not> rate_limited 1000 ''U1'' Email notifier_init
   \<and> map_sum id n_status (fst (sendNotification scenario_platform ''N1'' ''0123456789ab'' 1000
          ''U1'' Email ''welcome'' ''hello'' Normal notifier_init)) = Inr Sent"
proof -
  have nl: "\<not> rate_limited 1000 ''U1'' Email notifier_init"
    by (simp add: rate_limited_def notifier_init_def)
  from sendNotification_ignores_preferences
    [where P = scenario_platform and newId = "''N1''" and iv = "''0123456789ab''" and now = 1000
       and r = "''U1''" and ch = Email and t = "''welcome''" and c = "''hello''" and pr = Normal
       and st = notifier_init
       and prefs = "[''U1'' \<mapsto> \<lparr>pref_channels = [Sms], pref_quiet = None\<rparr>]"] nl
  show ?thesis by (auto split: sum.splits)
qed

section \<open>Real-time broadcaster: what one broadcast sends\<close>

lemma emit_each_fields [simp]:
  "emitted (emit_each sids m st) = emitted st @ map (\<lambda>s. (s, m)) sids"
  "clients (emit_each sids m st) = clients st"
  "io (emit_each sids m st) = io st"
  "offlineQueue (emit_each sids m st) = offlineQueue st"
  "ioRooms (emit_each sids m st) = ioRooms st"
  "deliveryRooms (emit_each sids m st) = deliveryRooms st"
  unfolding emit_each_def
  by (induction sids arbitrary: st) (simp_all add: emit_def)

lemma enqueue_offline_fields [simp]:
  "emitted (enqueue_offline e u st) = emitted st"
  "clients (enqueue_offline e u st) = clients st"
  "io (enqueue_offline e u st) = io st"
  "ioRooms (enqueue_offline e u st) = ioRooms st"
  "deliveryRooms (enqueue_offline e u st) = deliveryRooms st"
  by (simp_all add: enqueue_offline_def Let_def)

lemma enqueue_all_fields [simp]:
  "emitted (foldl (\<lambda>s u. enqueue_offline e u s) st us) = emitted st"
  "clients (foldl (\<lambda>s u. enqueue_offline e u s) st us) = clients st"
  "io (foldl (\<lambda>s u. enqueue_offline e u s) st us) = io st"
  "ioRooms (foldl (\<lambda>s u. enqueue_offline e u s) st us) = ioRooms st"
  "deliveryRooms (foldl (\<lambda>s u. enqueue_offline e u s) st us) = deliveryRooms st"
  by (induction us arbitrary: st) simp_all

lemma broadcast_room_fields [simp]:
  "emitted (broadcast_room e st) = emitted st @ map (\<lambda>s. (s, EventMsg e)) (room_targets e st)"
  "clients (broadcast_room e st) = clients st"
  "io (broadcast_room e st) = io st"
  "offlineQueue (broadcast_room e st) = offlineQueue st"
  "ioRooms (broadcast_room e st) = ioRooms st"
  "deliveryRooms (broadcast_room e st) = deliveryRooms st"
  by (simp_all add: broadcast_room_def room_targets_def split: option.splits)

lemma broadcast_users_fields [simp]:
  "emitted (broadcast_users e st) = emitted st @ map (\<lambda>s. (s, EventMsg e)) (user_targets e st)"
  "clients (broadcast_users e st) = clients st"
  "io (broadcast_users e st) = io st"
  "ioRooms (broadcast_users e st) = ioRooms st"
  "deliveryRooms (broadcast_users e st) = deliveryRooms st"
  by (simp_all add: broadcast_users_def user_targets_def Let_def split: option.splits)

lemma broadcast_roles_fields [simp]:
  "emitted (broadcast_roles e st) = emitted st @ map (\<lambda>s. (s, EventMsg e)) (role_targets e st)"
  "clients (broadcast_roles e st) = clients st"
  "io (broadcast_roles e st) = io st"
  "offlineQueue (broadcast_roles e st) = offlineQueue st"
  "ioRooms (broadcast_roles e st) = ioRooms st"
  "deliveryRooms (broadcast_roles e st) = deliveryRooms st"
  by (simp_all add: broadcast_roles_def role_targets_def split: option.splits)

lemma targets_after_room [simp]:
  "user_targets e (broadcast_room e' st) = user_targets e st"
  "role_targets e (broadcast_room e' st) = role_targets e st"
  "role_targets e (broadcast_users e' st) = role_targets e st"
  by (simp_all add: user_targets_def role_targets_def split: option.splits)

lemma emitted_broadcast:
  "io st \<Longrightarrow> emitted (broadcast e st) =
     emitted st @ map (\<lambda>s. (s, EventMsg e)) (room_targets e st @ user_targets e st @ role_targets e st)"
  by (simp add: broadcast_def)

lemma broadcast_fields [simp]:
  "clients (broadcast e st) = clients st"
  "io (broadcast e st) = io st"
  "ioRooms (broadcast e st) = ioRooms st"
  "deliveryRooms (broadcast e st) = deliveryRooms st"
  by (simp_all add: broadcast_def)

lemma sent_by_broadcast_eq:
  "sent_by_broadcast e st =
    (if io st
     then map (\<lambda>s. (s, EventMsg e)) (room_targets e st @ user_targets e st @ role_targets e st)
     else [])"
  by (simp add: sent_by_broadcast_def emitted_broadcast) (simp add: broadcast_def)

lemma count_distinct:
  "distinct xs \<Longrightarrow> count_list xs x = (if x \<in> set xs then 1 else 0)"
  by (induction xs) auto

lemma count_pairs:
  "count_list (map (\<lambda>s. (s, m)) xs) (x, m) = count_list xs x"
  by (induction xs) auto

lemma count_filtered_keys:
  "distinct (map fst al) \<Longrightarrow>
   count_list (map fst (filter Q al)) k
     = (case map_of al k of None \<Rightarrow> 0 | Some v \<Rightarrow> if Q (k, v) then 1 else 0)"
proof (induction al)
  case Nil
  then show ?case by simp
next
  case (Cons a al)
  obtain k' v' where a: "a = (k', v')" by (cases a)
  show ?case
  proof (cases "k' = k")
    case True
    with Cons.prems a have "k \<notin> set (map fst (filter Q al))" by auto
    then have "count_list (map fst (filter Q al)) k = 0" by (simp add: count_list_0_iff)
    with True a show ?thesis by simp
  next
    case False
    with Cons a show ?thesis by simp
  qed
qed

lemma count_room_targets:
  assumes "broadcaster_wf st"
  shows "count_list (room_targets e st) sid = (if in_room_audience sid e st then 1 else 0)"
proof (cases "aud_deliveryId (ev_audience e)")
  case None
  then show ?thesis by (simp add: room_targets_def in_room_audience_def)
next
  case (Some d)
  from assms have "distinct (ioRooms st (room_name d))" by (simp add: broadcaster_wf_def)
  with Some show ?thesis
    by (simp add: room_targets_def in_room_audience_def count_distinct)
qed

lemma count_user_targets:
  assumes "broadcaster_wf st"
  shows "count_list (user_targets e st) sid = (if in_user_audience sid e st then 1 else 0)"
proof -
  from assms have d: "distinct (map fst (clients st))" by (simp add: broadcaster_wf_def)
  show ?thesis
    by (simp add: user_targets_def in_user_audience_def count_filtered_keys [OF d]
        split: option.splits)
qed

lemma count_role_targets:
  assumes "broadcaster_wf st"
  shows "count_list (role_targets e st) sid = (if in_role_audience sid e st then 1 else 0)"
proof -
  from assms have d: "distinct (map fst (clients st))" by (simp add: broadcaster_wf_def)
  show ?thesis
    by (simp add: role_targets_def in_role_audience_def count_filtered_keys [OF d]
        split: option.splits)
qed

lemma deliveries_to_wf:
  assumes "broadcaster_wf st"
  shows "deliveries_to sid e st =
    (if io st
     then (if in_room_audience sid e st then 1 else 0)
          + (if in_user_audience sid e st then 1 else 0)
          + (if in_role_audience sid e st then 1 else 0)
     else 0)"
proof (cases "io st")
  case False
  then show ?thesis by (simp add: deliveries_to_def sent_by_broadcast_eq)
next
  case True
  have "deliveries_to sid e st
      = count_list (map (\<lambda>s. (s, EventMsg e))
          (room_targets e st @ user_targets e st @ role_targets e st)) (sid, EventMsg e)"
    using True by (simp only: deliveries_to_def sent_by_broadcast_eq if_True)
  also have "\<dots> = count_list (room_targets e st @ user_targets e st @ role_targets e st) sid"
    by (rule count_pairs)
  also have "\<dots> = count_list (room_targets e st) sid + count_list (user_targets e st) sid
      + count_list (role_targets e st) sid"
    by simp
  finally show ?thesis
    using True
    by (simp only: count_room_targets [OF assms] count_user_targets [OF assms]
        count_role_targets [OF assms] if_True)
qed

section \<open>Real-time broadcaster: reachable states\<close>

lemma emit_events_fields [simp]:
  "emitted (foldl (\<lambda>s event. emit sid (EventMsg event) s) st q)
     = emitted st @ map (\<lambda>e. (sid, EventMsg e)) q"
  "clients (foldl (\<lambda>s event. emit sid (EventMsg event) s) st q) = clients st"
  "io (foldl (\<lambda>s event. emit sid (EventMsg event) s) st q) = io st"
  "offlineQueue (foldl (\<lambda>s event. emit sid (EventMsg event) s) st q) = offlineQueue st"
  "ioRooms (foldl (\<lambda>s event. emit sid (EventMsg event) s) st q) = ioRooms st"
  "deliveryRooms (foldl (\<lambda>s event. emit sid (EventMsg event) s) st q) = deliveryRooms st"
  by (induction q arbitrary: st) (simp_all add: emit_def)

lemma emit_fields [simp]:
  "emitted (emit sid m st) = emitted st @ [(sid, m)]"
  "clients (emit sid m st) = clients st"
  "io (emit sid m st) = io st"
  "offlineQueue (emit sid m st) = offlineQueue st"
  "ioRooms (emit sid m st) = ioRooms st"
  "deliveryRooms (emit sid m st) = deliveryRooms st"
  by (simp_all add: emit_def)

lemma wf_init: "broadcaster_wf broadcaster_init"
  by (simp add: broadcaster_wf_def broadcaster_init_def)

lemma wf_initializeWebSocket: "broadcaster_wf st \<Longrightarrow> broadcaster_wf (initializeWebSocket st)"
  by (simp add: broadcaster_wf_def initializeWebSocket_def)

lemma wf_on_authenticate: "broadcaster_wf st \<Longrightarrow> broadcaster_wf (on_authenticate sid u role st)"
  by (cases "offlineQueue st u")
    (simp_all add: broadcaster_wf_def on_authenticate_def Let_def distinct_update)

lemma wf_on_subscribe: "broadcaster_wf st \<Longrightarrow> broadcaster_wf (on_subscribe sid d st)"
  by (simp add: broadcaster_wf_def on_subscribe_def set_add_def Let_def)

lemma wf_on_unsubscribe: "broadcaster_wf st \<Longrightarrow> broadcaster_wf (on_unsubscribe sid d st)"
  by (simp add: broadcaster_wf_def on_unsubscribe_def distinct_removeAll)

lemma wf_on_disconnect: "broadcaster_wf st \<Longrightarrow> broadcaster_wf (on_disconnect sid st)"
  by (simp add: broadcaster_wf_def on_disconnect_def distinct_removeAll distinct_delete)

lemma wf_on_ping: "broadcaster_wf st \<Longrightarrow> broadcaster_wf (on_ping sid now st)"
  by (simp add: broadcaster_wf_def on_ping_def)

lemma wf_closeWebSocket: "broadcaster_wf st \<Longrightarrow> broadcaster_wf (closeWebSocket st)"
  by (simp add: broadcaster_wf_def closeWebSocket_def)

lemma wf_enqueue_offline: "broadcaster_wf st \<Longrightarrow> broadcaster_wf (enqueue_offline e u st)"
  by (auto simp add: broadcaster_wf_def enqueue_offline_def Let_def split: option.splits)

lemma wf_enqueue_all:
  "broadcaster_wf st \<Longrightarrow> broadcaster_wf (foldl (\<lambda>s u. enqueue_offline e u s) st us)"
  by (induction us arbitrary: st) (simp_all add: wf_enqueue_offline)

lemma wf_emit_each: "broadcaster_wf st \<Longrightarrow> broadcaster_wf (emit_each sids m st)"
  by (simp add: broadcaster_wf_def)

lemma wf_broadcast: "broadcaster_wf st \<Longrightarrow> broadcaster_wf (broadcast e st)"
  by (simp add: broadcast_def broadcast_room_def broadcast_users_def broadcast_roles_def Let_def
      wf_emit_each wf_enqueue_all split: option.splits)

lemma wf_step: "broadcaster_wf st \<Longrightarrow> broadcaster_wf (broadcaster_step a st)"
  by (cases a)
    (simp_all add: wf_initializeWebSocket wf_on_authenticate wf_on_subscribe wf_on_unsubscribe
      wf_on_disconnect wf_on_ping wf_broadcast wf_closeWebSocket)

lemma wf_run: "broadcaster_wf st \<Longrightarrow> broadcaster_wf (broadcaster_run as st)"
  by (induction as arbitrary: st) (simp_all add: wf_step)

lemma queue_of_bounded: "broadcaster_wf st \<Longrightarrow> length (queue_of u st) \<le> 50"
  by (simp add: broadcaster_wf_def queue_of_def split: option.splits)

lemma sent_by_broadcast_all_events:
  "list_all (\<lambda>m. snd m = EventMsg e) (sent_by_broadcast e st)"
  by (auto simp add: sent_by_broadcast_eq list_all_iff)

text \<open>
  Against C3 as stated: session s1 is authenticated as user U1 with role admin and has joined
  the room of delivery D1. One \<open>broadcast\<close> of an event whose audience names the delivery, the
  user and the role sends the event to s1 three times.
\<close>

theorem broadcast_overlap_counterexample:
  "emitted (broadcaster_run (overlap_scenario @ [Broadcast overlap_event]) broadcaster_init)
     = [(''s1'', AuthenticatedMsg True), (''s1'', EventMsg overlap_event),
        (''s1'', EventMsg overlap_event), (''s1'', EventMsg overlap_event)]"
  by (simp add: overlap_scenario_def overlap_event_def broadcaster_init_def
      initializeWebSocket_def on_authenticate_def on_subscribe_def set_add_def room_name_def
      broadcast_def broadcast_room_def broadcast_users_def broadcast_roles_def
      enqueue_offline_def isOnline_def emit_each_def emit_def Let_def)

text \<open>
  C3, amended. In every reachable state, one \<open>broadcast\<close> call sends the event to a session
  once for each audience criterion the session satisfies: once if it is in the delivery's
  room, once if its user is listed in \<^verbatim>\<open>userIds\<close>, once if its role is listed in \<^verbatim>\<open>roles\<close>; so
  up to three times, and nothing at all when the server is not initialised. No duplicate is
  suppressed. Every message the call sends is that event.
\<close>

theorem broadcast_delivers_once_per_criterion:
  "(let st = broadcaster_run acts broadcaster_init
    in deliveries_to sid e st =
         (if io st
          then (if in_room_audience sid e st then 1 else 0)
               + (if in_user_audience sid e st then 1 else 0)
               + (if in_role_audience sid e st then 1 else 0)
          else 0)
       \<and> list_all (\<lambda>m. snd m = EventMsg e) (sent_by_broadcast e st))"
  using deliveries_to_wf [OF wf_run [OF wf_init], of sid e acts]
  by (simp add: Let_def sent_by_broadcast_all_events)

theorem broadcast_delivers_once_per_criterion_witness:
  "io (broadcaster_run overlap_scenario broadcaster_init)
   \<and> in_room_audience ''s1'' overlap_event (broadcaster_run overlap_scenario broadcaster_init)
   \<and> in_user_audience ''s1'' overlap_event (broadcaster_run overlap_scenario broadcaster_init)
   \<and> in_role_audience ''s1'' overlap_event (broadcaster_run overlap_scenario broadcaster_init)
   \<and> deliveries_to ''s1'' overlap_event (broadcaster_run overlap_scenario broadcaster_init) = 3"
proof -
  have st: "broadcaster_run overlap_scenario broadcaster_init =
      \<lparr>io = True, clients = [(''s1'', \<lparr>client_userId = ''U1'', client_role = Admin\<rparr>)],
       offlineQueue = Map.empty, deliveryRooms = [''D1'' \<mapsto> [''s1'']],
       ioRooms = (\<lambda>room. [])(''delivery:D1'' := [''s1'']),
       emitted = [(''s1'', AuthenticatedMsg True)]\<rparr>"
    by (simp add: overlap_scenario_def broadcaster_init_def initializeWebSocket_def
        on_authenticate_def on_subscribe_def set_add_def room_name_def emit_def Let_def)
  have crit: "io (broadcaster_run overlap_scenario broadcaster_init)
   \<and> in_room_audience ''s1'' overlap_event (broadcaster_run overlap_scenario broadcaster_init)
   \<and> in_user_audience ''s1'' overlap_event (broadcaster_run overlap_scenario broadcaster_init)
   \<and> in_role_audience ''s1'' overlap_event (broadcaster_run overlap_scenario broadcaster_init)"
    unfolding st
    by (simp add: in_room_audience_def in_user_audience_def in_role_audience_def
        overlap_event_def room_name_def)
  from broadcast_delivers_once_per_criterion [of overlap_scenario "''s1''" overlap_event] crit
  show ?thesis by (simp add: Let_def)
qed

section \<open>Real-time broadcaster: the offline queue\<close>

lemma last50_append: "last50 (last50 xs @ ys) = last50 (xs @ ys)"
proof -
  let ?n = "length xs - 50"
  have cut: "last50 xs @ ys = drop ?n (xs @ ys)"
    by (simp add: last50_def)
  have "last50 (drop ?n (xs @ ys)) = drop (length (drop ?n (xs @ ys)) - 50 + ?n) (xs @ ys)"
    unfolding last50_def by (rule drop_drop)
  moreover have "length (drop ?n (xs @ ys)) - 50 + ?n = length (xs @ ys) - 50"
    by simp
  ultimately show ?thesis
    unfolding cut by (simp only: last50_def)
qed

lemma cap_last50:
  assumes "length q \<le> 50"
  shows "(if length (q @ [e]) > 50 then tl (q @ [e]) else q @ [e]) = last50 (q @ [e])"
proof (cases "length q = 50")
  case True
  then have "last50 (q @ [e]) = drop 1 (q @ [e])" by (simp add: last50_def)
  also have "\<dots> = tl (q @ [e])" by (cases "q @ [e]") simp_all
  finally show ?thesis using True by simp
next
  case False
  with assms show ?thesis by (simp add: last50_def)
qed

lemma offline_targets:
  "\<not> isOnline u st \<Longrightarrow>
   filter (\<lambda>(socketId, client). client_userId client \<in> set [u]) (clients st) = []"
  by (auto simp add: isOnline_def list_ex_iff filter_empty_conv)

lemma broadcast_offline:
  assumes "io st" and "\<not> isOnline u st" and "ev_audience e = only_user u"
    and "length (queue_of u st) \<le> 50"
  shows "broadcast e st = st\<lparr>offlineQueue := (offlineQueue st)(u \<mapsto> last50 (queue_of u st @ [e]))\<rparr>"
proof -
  have "enqueue_offline e u st
      = st\<lparr>offlineQueue := (offlineQueue st)
           (u \<mapsto> (if length (queue_of u st @ [e]) > 50 then tl (queue_of u st @ [e])
                   else queue_of u st @ [e]))\<rparr>"
    using assms(2) by (simp add: enqueue_offline_def Let_def queue_of_def)
  then have "enqueue_offline e u st
      = st\<lparr>offlineQueue := (offlineQueue st)(u \<mapsto> last50 (queue_of u st @ [e]))\<rparr>"
    by (simp only: cap_last50 [OF assms(4)])
  with assms(1,3) offline_targets [OF assms(2)] show ?thesis
    by (simp add: broadcast_def broadcast_room_def broadcast_users_def broadcast_roles_def
        only_user_def emit_each_def Let_def)
qed

lemma broadcast_all_offline:
  assumes "io st" and "\<not> isOnline u st" and "list_all (\<lambda>e. ev_audience e = only_user u) es"
    and "length (queue_of u st) \<le> 50"
  shows "queue_of u (broadcast_all es st) = last50 (queue_of u st @ es)
    \<and> emitted (broadcast_all es st) = emitted st
    \<and> clients (broadcast_all es st) = clients st
    \<and> io (broadcast_all es st) = io st"
  using assms
proof (induction es arbitrary: st)
  case Nil
  then show ?case by (simp add: broadcast_all_def last50_def)
next
  case (Cons e es)
  let ?st1 = "st\<lparr>offlineQueue := (offlineQueue st)(u \<mapsto> last50 (queue_of u st @ [e]))\<rparr>"
  from Cons.prems have e: "ev_audience e = only_user u" by simp
  have step: "broadcast e st = ?st1"
    by (rule broadcast_offline [OF Cons.prems(1,2) e Cons.prems(4)])
  have q1: "queue_of u ?st1 = last50 (queue_of u st @ [e])" by (simp add: queue_of_def)
  have "queue_of u (broadcast_all es ?st1) = last50 (queue_of u ?st1 @ es)
    \<and> emitted (broadcast_all es ?st1) = emitted ?st1
    \<and> clients (broadcast_all es ?st1) = clients ?st1
    \<and> io (broadcast_all es ?st1) = io ?st1"
  proof (rule Cons.IH)
    show "io ?st1" using Cons.prems(1) by simp
    show "\<not> isOnline u ?st1" using Cons.prems(2) by (simp add: isOnline_def)
    show "list_all (\<lambda>e. ev_audience e = only_user u) es" using Cons.prems(3) by simp
    show "length (queue_of u ?st1) \<le> 50" by (subst q1) (simp add: last50_def)
  qed
  moreover have "broadcast_all (e # es) st = broadcast_all es ?st1"
    by (simp add: broadcast_all_def step)
  moreover have "last50 (last50 (queue_of u st @ [e]) @ es) = last50 (queue_of u st @ e # es)"
    using last50_append [of "queue_of u st @ [e]" es] by simp
  ultimately show ?case by (simp add: q1)
qed

lemma on_authenticate_drains:
  "emitted (on_authenticate sid u role st)
     = emitted st @ map (\<lambda>e. (sid, EventMsg e)) (queue_of u st) @ [(sid, AuthenticatedMsg True)]
   \<and> queue_of u (on_authenticate sid u role st) = []"
  by (cases "offlineQueue st u")
    (simp_all add: on_authenticate_def queue_of_def Let_def)

lemma run_append:
  "broadcaster_run (as @ bs) st = broadcaster_run bs (broadcaster_run as st)"
  by (induction as arbitrary: st) simp_all

lemma run_broadcasts:
  "broadcaster_run (map Broadcast es) st = broadcast_all es st"
  by (induction es arbitrary: st) (simp_all add: broadcast_all_def)

lemma enqueue_offline_queue:
  assumes "length (queue_of u st) \<le> 50"
  shows "queue_of u (enqueue_offline e u st)
          = (if isOnline u st then queue_of u st else last50 (queue_of u st @ [e]))"
proof (cases "isOnline u st")
  case True
  then show ?thesis by (simp add: enqueue_offline_def)
next
  case False
  have "queue_of u (enqueue_offline e u st)
      = (if length (queue_of u st @ [e]) > 50 then tl (queue_of u st @ [e])
         else queue_of u st @ [e])"
    using False by (simp add: enqueue_offline_def Let_def queue_of_def)
  with False show ?thesis by (simp only: cap_last50 [OF assms] if_False)
qed

text \<open>
  C9. In every reachable state the offline queue of every user holds at most 50 events, and
  each enqueue for an offline user leaves the most recent 50 of the queue and the new event.
  When events are broadcast to a user who has no live session, the queue afterwards holds the
  most recent 50 of the queued and the new events, in enqueue order; in particular, an event
  that arrives at a queue of 50 discards the oldest one. On a user's next \<^verbatim>\<open>authenticate\<close> the
  queued events are sent to the authenticating session in enqueue order, followed by the
  acknowledgement, and the queue is cleared.
\<close>

theorem offline_queue_bounded:
  assumes "st = broadcaster_run acts broadcaster_init"
    and "io st" and "\<not> isOnline u st"
    and "list_all (\<lambda>e. ev_audience e = only_user u) es"
  shows "length (queue_of u' st) \<le> 50
    \<and> queue_of u' (enqueue_offline e' u' st)
        = (if isOnline u' st then queue_of u' st
           else drop (length (queue_of u' st @ [e']) - 50) (queue_of u' st @ [e']))
    \<and> queue_of u (broadcast_all es st)
        = drop (length (queue_of u st @ es) - 50) (queue_of u st @ es)
    \<and> (length (queue_of u st) = 50 \<and> es = [e] \<longrightarrow>
         queue_of u (broadcast e st) = tl (queue_of u st) @ [e])
    \<and> emitted (on_authenticate sid u' role st)
        = emitted st @ map (\<lambda>e. (sid, EventMsg e)) (queue_of u' st)
          @ [(sid, AuthenticatedMsg True)]
    \<and> queue_of u' (on_authenticate sid u' role st) = []
    \<and> emitted (on_authenticate sid u role (broadcast_all es st))
        = emitted st @ map (\<lambda>e. (sid, EventMsg e)) (queue_of u (broadcast_all es st))
          @ [(sid, AuthenticatedMsg True)]
    \<and> queue_of u (on_authenticate sid u role (broadcast_all es st)) = []"
proof -
  have wf: "broadcaster_wf st" unfolding assms(1) by (rule wf_run [OF wf_init])
  have bound: "length (queue_of u' st) \<le> 50" for u' by (rule queue_of_bounded [OF wf])
  have enq: "queue_of u' (enqueue_offline e' u' st)
        = (if isOnline u' st then queue_of u' st
           else drop (length (queue_of u' st @ [e']) - 50) (queue_of u' st @ [e']))"
    using enqueue_offline_queue [OF bound, of u' e'] by (simp only: last50_def)
  note all = broadcast_all_offline [OF assms(2,3,4) bound]
  have queue: "queue_of u (broadcast_all es st)
      = drop (length (queue_of u st @ es) - 50) (queue_of u st @ es)"
    using all by (simp add: last50_def)
  have one: "queue_of u (broadcast e st) = tl (queue_of u st) @ [e]"
    if "length (queue_of u st) = 50" and "es = [e]"
  proof -
    from that(2) have "broadcast_all es st = broadcast e st" by (simp add: broadcast_all_def)
    with queue that show ?thesis by (cases "queue_of u st") simp_all
  qed
  from on_authenticate_drains [of sid u role "broadcast_all es st"] all
  have drain: "emitted (on_authenticate sid u role (broadcast_all es st))
        = emitted st @ map (\<lambda>e. (sid, EventMsg e)) (queue_of u (broadcast_all es st))
          @ [(sid, AuthenticatedMsg True)]
      \<and> queue_of u (on_authenticate sid u role (broadcast_all es st)) = []"
    by simp
  note drain0 = on_authenticate_drains [of sid u' role st]
  from bound enq queue one drain drain0 show ?thesis by blast
qed

lemma queued_event_audience [simp]: "ev_audience (queued_event n) = only_user ''U2''"
  by (simp add: queued_event_def)

lemma full_queue_scenario_eval:
  "queue_of ''U2'' full_queue_scenario = map queued_event [0..<50]
   \<and> emitted full_queue_scenario = []
   \<and> clients full_queue_scenario = []
   \<and> io full_queue_scenario"
proof -
  let ?st0 = "initializeWebSocket broadcaster_init"
  have st: "full_queue_scenario = broadcast_all (map queued_event [0..<50]) ?st0"
    unfolding full_queue_scenario_def by (simp only: broadcaster_run.simps
        broadcaster_step.simps run_broadcasts)
  have io0: "io ?st0" by (simp add: initializeWebSocket_def)
  have off0: "\<not> isOnline ''U2'' ?st0"
    by (simp add: isOnline_def initializeWebSocket_def broadcaster_init_def)
  have aud: "list_all (\<lambda>e. ev_audience e = only_user ''U2'') (map queued_event [0..<50])"
    by (simp add: list_all_iff del: upt_rec_numeral)
  have q0: "queue_of ''U2'' ?st0 = []"
    by (simp add: queue_of_def initializeWebSocket_def broadcaster_init_def)
  then have len0: "length (queue_of ''U2'' ?st0) \<le> 50" by simp
  from broadcast_all_offline [OF io0 off0 aud len0] q0 show ?thesis
    unfolding st
    by (simp add: last50_def initializeWebSocket_def broadcaster_init_def del: upt_rec_numeral)
qed

theorem offline_queue_bounded_witness:
  "io full_queue_scenario \<and> \<not> isOnline ''U2'' full_queue_scenario
   \<and> list_all (\<lambda>e. ev_audience e = only_user ''U2'') [queued_event 50]
   \<and> length (queue_of ''U2'' full_queue_scenario) = 50
   \<and> queue_of ''U2'' (broadcast (queued_event 50) full_queue_scenario)
       = map queued_event [1..<51]
   \<and> emitted (on_authenticate ''s2'' ''U2'' Customer
        (broadcast (queued_event 50) full_queue_scenario))
       = map (\<lambda>n. (''s2'', EventMsg (queued_event n))) [1..<51] @ [(''s2'', AuthenticatedMsg True)]
   \<and> queue_of ''U2'' (on_authenticate ''s2'' ''U2'' Customer
        (broadcast (queued_event 50) full_queue_scenario)) = []"
proof -
  note ev = full_queue_scenario_eval
  have h2: "io full_queue_scenario" using ev by simp
  have h3: "\<not> isOnline ''U2'' full_queue_scenario" using ev by (simp add: isOnline_def)
  have h4: "list_all (\<lambda>e. ev_audience e = only_user ''U2'') [queued_event 50]" by simp
  have len: "length (queue_of ''U2'' full_queue_scenario) = 50" using ev by simp
  have one: "broadcast_all [queued_event 50] full_queue_scenario
      = broadcast (queued_event 50) full_queue_scenario"
    by (simp add: broadcast_all_def)
  have a: "[0..<50] = 0 # [Suc 0..<50]" by (rule upt_conv_Cons) simp
  have b: "[Suc 0..<Suc 50] = [Suc 0..<50] @ [50]" by (rule upt_Suc_append) simp
  have c: "[1..<51] = [Suc 0..<Suc 50]" by simp
  have shift: "tl (map queued_event [0..<50]) @ [queued_event 50] = map queued_event [1..<51]"
    unfolding a b c by simp
  from offline_queue_bounded [OF full_queue_scenario_def h2 h3 h4,
      where u' = "''U2''" and e' = "queued_event 50" and e = "queued_event 50"
        and sid = "''s2''" and role = Customer]
  have "queue_of ''U2'' (broadcast (queued_event 50) full_queue_scenario)
          = tl (queue_of ''U2'' full_queue_scenario) @ [queued_event 50]
      \<and> emitted (on_authenticate ''s2'' ''U2'' Customer
            (broadcast (queued_event 50) full_queue_scenario))
          = emitted full_queue_scenario
            @ map (\<lambda>e. (''s2'', EventMsg e))
                (queue_of ''U2'' (broadcast (queued_event 50) full_queue_scenario))
            @ [(''s2'', AuthenticatedMsg True)]
      \<and> queue_of ''U2'' (on_authenticate ''s2'' ''U2'' Customer
            (broadcast (queued_event 50) full_queue_scenario)) = []"
    using len unfolding one by blast
  with ev shift h2 h3 h4 len show ?thesis
    by (simp add: comp_def del: upt_rec_numeral)
qed

end
